theory Spec2Isabelle
  imports
    Main
    "HOL-Library.Sublist"
    "HOL-Library.AList"
    "HOL-Library.Char_ord"
    "HOL-Library.List_Lexorder"
    "HOL-Library.Word"
begin

section \<open>The local file object store of delta-go\<close>

text \<open>
  A shallow embedding of \<^verbatim>\<open>storage/filestore/filestore.go\<close>. The Go functions
  call the operating system through the packages \<^verbatim>\<open>os\<close>, \<^verbatim>\<open>path\<close>,
  \<^verbatim>\<open>path/filepath\<close>, \<^verbatim>\<open>strings\<close> and \<^verbatim>\<open>errors\<close>; the first
  part of this theory models the pieces of those packages the store uses (Unix flavour:
  the separator is a slash, there are no volume names), over a file system that is a tree
  of directories and regular files. Symbolic links, hard links, permissions and devices
  are not part of the model. The second part translates the store itself, function by
  function (all but \<open>Delete\<close>, which no property below is about).
\<close>

subsection \<open>Strings and lexical path functions\<close>

definition os_IsPathSeparator :: "char \<Rightarrow> bool" where
  "os_IsPathSeparator c = (c = CHR ''/'')"

definition filepath_Separator :: char where
  "filepath_Separator = CHR ''/''"

definition strings_HasPrefix :: "string \<Rightarrow> string \<Rightarrow> bool" where
  "strings_HasPrefix s pre = prefix pre s"

definition strings_TrimPrefix :: "string \<Rightarrow> string \<Rightarrow> string" where
  "strings_TrimPrefix s pre = (if strings_HasPrefix s pre then drop (length pre) s else s)"

text \<open>
  The elements of a path between its separators: \<open>''a//b/''\<close> has the elements
  \<open>''a''\<close>, \<open>''''\<close>, \<open>''b''\<close> and \<open>''''\<close>.
\<close>

fun split_slash :: "string \<Rightarrow> string list" where
  "split_slash [] = [[]]"
| "split_slash (c # cs) =
     (if c = CHR ''/'' then [] # split_slash cs
      else (case split_slash cs of [] \<Rightarrow> [[c]] | w # ws \<Rightarrow> (c # w) # ws))"

fun join_slash :: "string list \<Rightarrow> string" where
  "join_slash [] = []"
| "join_slash [x] = x"
| "join_slash (x # y # ys) = x @ CHR ''/'' # join_slash (y # ys)"

text \<open>
  \<^verbatim>\<open>filepath.Clean\<close> (and \<^verbatim>\<open>path.Clean\<close>, the same function on Unix) reads
  the path element by element and keeps a stack of the elements of the result: an empty
  element and \<open>''.''\<close> are dropped; \<open>''..''\<close> removes the element before it when there
  is one that is not itself \<open>''..''\<close>, is dropped at the root of a rooted path, and is
  kept otherwise. The empty result is written \<open>''.''\<close>.
\<close>

definition clean_step :: "bool \<Rightarrow> string list \<Rightarrow> string \<Rightarrow> string list" where
  "clean_step rooted st c =
     (if c = [] \<or> c = ''.'' then st
      else if c = ''..'' then
        (if st \<noteq> [] \<and> last st \<noteq> ''..'' then butlast st
         else if rooted then st
         else st @ [''..''])
      else st @ [c])"

definition filepath_Clean :: "string \<Rightarrow> string" where
  "filepath_Clean p =
     (if p = [] then ''.''
      else
        (let rooted = (hd p = CHR ''/'');
             st = foldl (clean_step rooted) [] (split_slash p)
         in if rooted then CHR ''/'' # join_slash st
            else if st = [] then ''.''
            else join_slash st))"

text \<open>
  \<^verbatim>\<open>filepath.Join\<close> skips the leading empty elements, joins the rest with the
  separator and cleans the result; with no non-empty element the result is empty.
  \<^verbatim>\<open>path.Join\<close> does the same.
\<close>

definition filepath_Join :: "string list \<Rightarrow> string" where
  "filepath_Join elem =
     (case dropWhile (\<lambda>e. e = []) elem of
        [] \<Rightarrow> []
      | es \<Rightarrow> filepath_Clean (join_slash es))"

definition path_Join :: "string list \<Rightarrow> string" where
  "path_Join elem =
     (case dropWhile (\<lambda>e. e = []) elem of
        [] \<Rightarrow> []
      | es \<Rightarrow> filepath_Clean (join_slash es))"

text \<open>
  \<^verbatim>\<open>filepath.Split\<close> cuts the path after its last separator;
  \<^verbatim>\<open>filepath.Dir\<close> cleans the first half.
\<close>

definition filepath_Split :: "string \<Rightarrow> string \<times> string" where
  "filepath_Split p =
     (let file = rev (takeWhile (\<lambda>c. \<not> os_IsPathSeparator c) (rev p))
      in (take (length p - length file) p, file))"

definition filepath_Dir :: "string \<Rightarrow> string" where
  "filepath_Dir p = filepath_Clean (fst (filepath_Split p))"

subsection \<open>Errors\<close>

text \<open>
  The error numbers the modelled system calls report, and Go's error values.
  \<open>PathError\<close> and \<open>LinkError\<close> are the errors of package \<^verbatim>\<open>os\<close>;
  \<open>joinError\<close> is what \<^verbatim>\<open>errors.Join\<close> builds and \<open>wrapError\<close> what
  \<^verbatim>\<open>fmt.Errorf\<close> builds around the argument of its \<^verbatim>\<open>%w\<close> verb.

  Modelled from the spec: the error sentinels \<open>ErrorObjectDoesNotExist\<close>,
  \<open>ErrorObjectIsDir\<close>, \<open>ErrorVersionAlreadyExists\<close>, \<open>ErrorDeleteObject\<close> and
  \<open>ErrorListObjects\<close> are variables of the package \<^verbatim>\<open>storage\<close>, which is not
  among the sources. Each is an error value of its own, which callers match by kind: it
  is equal to itself only, and to no error of the operating system.
\<close>

datatype errno = ENOENT | ENOTDIR | EISDIR | EEXIST | ENOTEMPTY | EINVAL | EBUSY | EACCES

datatype error =
    ErrorObjectDoesNotExist
  | ErrorObjectIsDir
  | ErrorVersionAlreadyExists
  | ErrorDeleteObject
  | ErrorListObjects
  | PathError string string errno
  | LinkError string string string errno
  | joinError "error list"
  | wrapError string error

text \<open>
  \<^verbatim>\<open>errors.Join\<close> discards the nil errors and returns nil when none is left.
\<close>

definition errors_Join :: "error option list \<Rightarrow> error option" where
  "errors_Join errs =
     (case List.map_filter id errs of [] \<Rightarrow> None | es \<Rightarrow> Some (joinError es))"

text \<open>
  \<^verbatim>\<open>errors.Is\<close> for a target that is one of the sentinels: the error is the
  target, or one of the errors it wraps is.
\<close>

fun error_Is :: "error \<Rightarrow> error \<Rightarrow> bool" where
  "error_Is (joinError es) target =
     (joinError es = target \<or> list_ex (\<lambda>e. error_Is e target) es)"
| "error_Is (wrapError msg e) target = (wrapError msg e = target \<or> error_Is e target)"
| "error_Is e target = (e = target)"

definition errors_Is :: "error option \<Rightarrow> error \<Rightarrow> bool" where
  "errors_Is err target = (case err of None \<Rightarrow> False | Some e \<Rightarrow> error_Is e target)"

text \<open>
  \<^verbatim>\<open>os.IsNotExist\<close> looks at the error number under a \<open>PathError\<close> or a
  \<open>LinkError\<close>; it does not look into joined or wrapped errors.
\<close>

fun os_IsNotExist :: "error option \<Rightarrow> bool" where
  "os_IsNotExist (Some (PathError op name e)) = (e = ENOENT)"
| "os_IsNotExist (Some (LinkError op old new e)) = (e = ENOENT)"
| "os_IsNotExist err = False"

subsection \<open>The file system\<close>

type_synonym byte = "8 word"

text \<open>
  A regular file has its content and its modification time; a directory has its
  modification time, the size \<^verbatim>\<open>stat\<close> reports for it (which depends on the
  file system: 4096 on ext4, for one) and its entries. The state of the system is the
  tree under the root, the working directory of the process (relative paths start there),
  the clock, which stamps what is created or written, and the size a new directory
  reports.
\<close>

datatype node =
    File "byte list" nat
  | Dir nat int "(string \<times> node) list"

record fs =
  root :: node
  cwd :: "string list"
  clock :: nat
  mkdir_size :: int

fun lookup :: "node \<Rightarrow> string list \<Rightarrow> node option" where
  "lookup n [] = Some n"
| "lookup (File b m) (c # cs) = None"
| "lookup (Dir m s es) (c # cs) =
     (case map_of es c of None \<Rightarrow> None | Some n \<Rightarrow> lookup n cs)"

text \<open>
  \<open>alter p stamp f n\<close> rewrites the entry at the position \<open>p\<close> below \<open>n\<close> with
  \<open>f\<close> (\<open>None\<close> is no entry), when the directory that holds it exists; \<open>stamp\<close> is
  the new modification time of that directory, if it gets one.
\<close>

fun alter :: "string list \<Rightarrow> nat option \<Rightarrow> (node option \<Rightarrow> node option) \<Rightarrow> node \<Rightarrow> node" where
  "alter [] stamp f n = n"
| "alter (c # cs) stamp f (File b m) = File b m"
| "alter [c] stamp f (Dir m s es) =
     Dir (case stamp of None \<Rightarrow> m | Some t \<Rightarrow> t) s
       (case f (map_of es c) of
          None \<Rightarrow> AList.delete c es
        | Some n \<Rightarrow> AList.update c n es)"
| "alter (c # d # cs) stamp f (Dir m s es) =
     (case map_of es c of
        None \<Rightarrow> Dir m s es
      | Some n \<Rightarrow> Dir m s (AList.update c (alter (d # cs) stamp f n) es))"

text \<open>
  Path resolution walks the elements of the path from the root or from the working
  directory. Every step is taken in a directory: a missing one is \<open>ENOENT\<close>, a
  regular file in its place is \<open>ENOTDIR\<close>. The result is the position the path
  names, which need not exist when the last element is a name.
\<close>

fun walk :: "node \<Rightarrow> string list \<Rightarrow> string list \<Rightarrow> errno + string list" where
  "walk r cur [] = Inr cur"
| "walk r cur (c # cs) =
     (case lookup r cur of
        None \<Rightarrow> Inl ENOENT
      | Some (File b m) \<Rightarrow> Inl ENOTDIR
      | Some (Dir m s es) \<Rightarrow>
          if c = [] \<or> c = ''.'' then walk r cur cs
          else if c = ''..'' then walk r (butlast cur) cs
          else walk r (cur @ [c]) cs)"

definition resolve :: "fs \<Rightarrow> string \<Rightarrow> errno + string list" where
  "resolve s name =
     (if name = [] then Inl ENOENT
      else walk (root s) (if hd name = CHR ''/'' then [] else cwd s) (split_slash name))"

record FileInfo =
  fi_Size :: int
  fi_ModTime :: nat
  fi_IsDir :: bool

fun stat_node :: "node \<Rightarrow> FileInfo" where
  "stat_node (File b m) = \<lparr>fi_Size = int (length b), fi_ModTime = m, fi_IsDir = False\<rparr>"
| "stat_node (Dir m s es) = \<lparr>fi_Size = s, fi_ModTime = m, fi_IsDir = True\<rparr>"

text \<open>\<^verbatim>\<open>os.Stat\<close>: the file information, or nil and a \<open>PathError\<close>.\<close>

definition os_Stat :: "fs \<Rightarrow> string \<Rightarrow> FileInfo option \<times> error option" where
  "os_Stat s name =
     (case resolve s name of
        Inl e \<Rightarrow> (None, Some (PathError ''stat'' name e))
      | Inr p \<Rightarrow>
          (case lookup (root s) p of
             None \<Rightarrow> (None, Some (PathError ''stat'' name ENOENT))
           | Some n \<Rightarrow> (Some (stat_node n), None)))"

text \<open>
  \<^verbatim>\<open>os.ReadFile\<close>: a directory can be opened but not read.
\<close>

definition os_ReadFile :: "fs \<Rightarrow> string \<Rightarrow> byte list \<times> error option" where
  "os_ReadFile s name =
     (case resolve s name of
        Inl e \<Rightarrow> ([], Some (PathError ''open'' name e))
      | Inr p \<Rightarrow>
          (case lookup (root s) p of
             None \<Rightarrow> ([], Some (PathError ''open'' name ENOENT))
           | Some (Dir m sz es) \<Rightarrow> ([], Some (PathError ''read'' name EISDIR))
           | Some (File b m) \<Rightarrow> (b, None)))"

text \<open>
  \<^verbatim>\<open>os.WriteFile\<close> opens the file for writing, creating or truncating it, and
  writes the data. Creating the file is a change of its directory.
\<close>

definition os_WriteFile :: "fs \<Rightarrow> string \<Rightarrow> byte list \<Rightarrow> fs \<times> error option" where
  "os_WriteFile s name data =
     (case resolve s name of
        Inl e \<Rightarrow> (s, Some (PathError ''open'' name e))
      | Inr p \<Rightarrow>
          (case lookup (root s) p of
             Some (Dir m sz es) \<Rightarrow> (s, Some (PathError ''open'' name EISDIR))
           | Some (File b m) \<Rightarrow>
               (s\<lparr>root := alter p None (\<lambda>_. Some (File data (clock s))) (root s)\<rparr>, None)
           | None \<Rightarrow>
               (s\<lparr>root := alter p (Some (clock s)) (\<lambda>_. Some (File data (clock s))) (root s)\<rparr>,
                None)))"

text \<open>
  \<^verbatim>\<open>os.Mkdir\<close>. The system call ignores separators after the last element.
\<close>

definition os_Mkdir :: "fs \<Rightarrow> string \<Rightarrow> fs \<times> error option" where
  "os_Mkdir s name =
     (let elems = rev (dropWhile (\<lambda>c. c = []) (rev (split_slash name)))
      in if name = [] then (s, Some (PathError ''mkdir'' name ENOENT))
         else
           (case walk (root s) (if hd name = CHR ''/'' then [] else cwd s) elems of
              Inl e \<Rightarrow> (s, Some (PathError ''mkdir'' name e))
            | Inr p \<Rightarrow>
                (case lookup (root s) p of
                   Some n \<Rightarrow> (s, Some (PathError ''mkdir'' name EEXIST))
                 | None \<Rightarrow>
                     (s\<lparr>root := alter p (Some (clock s))
                                  (\<lambda>_. Some (Dir (clock s) (mkdir_size s) [])) (root s)\<rparr>,
                      None))))"

text \<open>
  \<^verbatim>\<open>os.MkdirAll\<close>, as the Go library has it: a directory that is there is
  success and a file in its place is \<open>ENOTDIR\<close>; otherwise the parent (the path before
  the separator that precedes the last element) is made first, then the directory itself.
\<close>

definition parent_end :: "string \<Rightarrow> nat" where
  "parent_end name =
     length (dropWhile (\<lambda>c. \<not> os_IsPathSeparator c) (dropWhile os_IsPathSeparator (rev name)))"

lemma parent_end_le: "parent_end name \<le> length name"
proof -
  have "parent_end name \<le> length (dropWhile os_IsPathSeparator (rev name))"
    unfolding parent_end_def by (rule length_dropWhile_le)
  also have "\<dots> \<le> length (rev name)"
    by (rule length_dropWhile_le)
  finally show ?thesis by simp
qed

lemma parent_shorter:
  "1 < parent_end name \<Longrightarrow> parent_end name - Suc 0 < length name"
  using parent_end_le [of name] by simp

function os_MkdirAll :: "fs \<Rightarrow> string \<Rightarrow> fs \<times> error option" where
  "os_MkdirAll s name =
     (case os_Stat s name of
        (Some dir, None) \<Rightarrow>
          if fi_IsDir dir then (s, None)
          else (s, Some (PathError ''mkdir'' name ENOTDIR))
      | _ \<Rightarrow>
          (let j = parent_end name;
               (s1, err) = (if 1 < j then os_MkdirAll s (take (j - 1) name) else (s, None))
           in if err \<noteq> None then (s1, err)
              else
                (case os_Mkdir s1 name of
                   (s2, None) \<Rightarrow> (s2, None)
                 | (s2, Some e) \<Rightarrow>
                     (case os_Stat s2 name of
                        (Some dir, None) \<Rightarrow> if fi_IsDir dir then (s2, None) else (s2, Some e)
                      | _ \<Rightarrow> (s2, Some e)))))"
  by pat_completeness auto
termination
  by (relation "measure (\<lambda>(s, name). length name)") (auto simp: parent_shorter)

text \<open>
  \<^verbatim>\<open>os.ReadDir\<close> returns the entries of a directory sorted by name. An entry
  carries its name and the file information of what it names.
\<close>

record DirEntry =
  de_Name :: string
  de_Info :: FileInfo

definition de_IsDir :: "DirEntry \<Rightarrow> bool" where
  "de_IsDir r = fi_IsDir (de_Info r)"

definition os_ReadDir :: "fs \<Rightarrow> string \<Rightarrow> DirEntry list \<times> error option" where
  "os_ReadDir s name =
     (case resolve s name of
        Inl e \<Rightarrow> ([], Some (PathError ''open'' name e))
      | Inr p \<Rightarrow>
          (case lookup (root s) p of
             None \<Rightarrow> ([], Some (PathError ''open'' name ENOENT))
           | Some (File b m) \<Rightarrow> ([], Some (PathError ''readdirent'' name ENOTDIR))
           | Some (Dir m sz es) \<Rightarrow>
               (map (\<lambda>(c, n). \<lparr>de_Name = c, de_Info = stat_node n\<rparr>) (sort_key fst es), None)))"

text \<open>
  \<^verbatim>\<open>os.Rename\<close>. Go refuses a destination that is a directory before it calls the
  system (\<open>EEXIST\<close>, unless source and destination are the same file). The system call
  then fails when the last element of either path is not a name (\<open>EBUSY\<close>), when the
  source does not exist, when one path lies below the other, and when source and
  destination are not of the same kind; otherwise the source takes the place of the
  destination, and both directories are stamped.
\<close>

fun is_Dir :: "node option \<Rightarrow> bool" where
  "is_Dir (Some (Dir m s es)) = True"
| "is_Dir n = False"

definition last_is_name :: "string \<Rightarrow> bool" where
  "last_is_name name = (let c = last (split_slash name) in c \<noteq> [] \<and> c \<noteq> ''.'' \<and> c \<noteq> ''..'')"

definition sys_rename :: "fs \<Rightarrow> string \<Rightarrow> string \<Rightarrow> fs \<times> errno option" where
  "sys_rename s old new =
     (case resolve s old of
        Inl e \<Rightarrow> (s, Some e)
      | Inr p \<Rightarrow>
          (case resolve s new of
             Inl e \<Rightarrow> (s, Some e)
           | Inr q \<Rightarrow>
               if \<not> last_is_name old \<or> \<not> last_is_name new then (s, Some EBUSY)
               else
                 (case lookup (root s) p of
                    None \<Rightarrow> (s, Some ENOENT)
                  | Some n \<Rightarrow>
                      if strict_prefix p q then (s, Some EINVAL)
                      else if strict_prefix q p then (s, Some ENOTEMPTY)
                      else if p = q then (s, None)
                      else
                        (case lookup (root s) q of
                           Some (File b m) \<Rightarrow>
                             if is_Dir (Some n) then (s, Some ENOTDIR)
                             else (s\<lparr>root := alter q (Some (clock s)) (\<lambda>_. Some n)
                                      (alter p (Some (clock s)) (\<lambda>_. None) (root s))\<rparr>, None)
                         | Some (Dir m sz es) \<Rightarrow>
                             if \<not> is_Dir (Some n) then (s, Some EISDIR)
                             else if es \<noteq> [] then (s, Some ENOTEMPTY)
                             else (s\<lparr>root := alter q (Some (clock s)) (\<lambda>_. Some n)
                                      (alter p (Some (clock s)) (\<lambda>_. None) (root s))\<rparr>, None)
                         | None \<Rightarrow>
                             (s\<lparr>root := alter q (Some (clock s)) (\<lambda>_. Some n)
                                   (alter p (Some (clock s)) (\<lambda>_. None) (root s))\<rparr>, None)))))"

definition os_SameFile :: "fs \<Rightarrow> string \<Rightarrow> string \<Rightarrow> bool" where
  "os_SameFile s old new =
     (case (resolve s old, resolve s new) of
        (Inr p, Inr q) \<Rightarrow> p = q
      | _ \<Rightarrow> False)"

definition os_Rename :: "fs \<Rightarrow> string \<Rightarrow> string \<Rightarrow> fs \<times> error option" where
  "os_Rename s old new =
     (let refused =
        (case os_Stat s new of
           (Some fi, None) \<Rightarrow>
             if fi_IsDir fi then
               (case os_Stat s old of
                  (Some ofi, None) \<Rightarrow>
                    if new = old \<or> \<not> os_SameFile s old new then Some EEXIST else None
                | (_, Some (PathError op name e)) \<Rightarrow> Some e
                | _ \<Rightarrow> None)
             else None
         | _ \<Rightarrow> None)
      in case refused of
           Some e \<Rightarrow> (s, Some (LinkError ''rename'' old new e))
         | None \<Rightarrow>
             (case sys_rename s old new of
                (s', None) \<Rightarrow> (s', None)
              | (s', Some e) \<Rightarrow> (s', Some (LinkError ''rename'' old new e))))"

subsection \<open>The types of package storage\<close>

text \<open>
  Modelled from the spec: the package \<^verbatim>\<open>storage\<close> is not among the sources. A
  \<open>Path\<close> wraps a raw string; \<open>NewPath\<close> wraps its argument as it is (a directory
  entry keeps the separator at its end); joining a path to a base gives the path whose
  raw string is the normalised concatenation, which is \<^verbatim>\<open>filepath.Join\<close>. An
  \<open>ObjectMeta\<close> has a location, a modification time and a size in bytes.
\<close>

record Path =
  Raw :: string

definition NewPath :: "string \<Rightarrow> Path" where
  "NewPath raw = \<lparr>Raw = raw\<rparr>"

definition Path_Join :: "Path \<Rightarrow> Path \<Rightarrow> Path" where
  "Path_Join p q = \<lparr>Raw = filepath_Join [Raw p, Raw q]\<rparr>"

record ObjectMeta =
  Location :: Path
  LastModified :: nat
  Size :: int

text \<open>The zero value of the struct, which \<^verbatim>\<open>var meta\<close> and \<^verbatim>\<open>new\<close> give.\<close>

definition zero_ObjectMeta :: ObjectMeta where
  "zero_ObjectMeta = \<lparr>Location = \<lparr>Raw = []\<rparr>, LastModified = 0, Size = 0\<rparr>"

subsection \<open>The store\<close>

text \<open>
  A call of the store either returns or panics (a method called on a nil interface, an
  index out of range). Pointers to paths are taken to be non-nil. The functions that
  change the file system return the new state beside their result.
\<close>

datatype 'a outcome = Panic | Return 'a

record FileObjectStore =
  BaseURI :: Path

definition New :: "Path \<Rightarrow> FileObjectStore" where
  "New baseURI = \<lparr>BaseURI = baseURI\<rparr>"

definition Put :: "FileObjectStore \<Rightarrow> fs \<Rightarrow> Path \<Rightarrow> byte list \<Rightarrow> fs \<times> error option" where
  "Put s st location bytes =
     (let writePath = filepath_Join [Raw (BaseURI s), Raw location];
          (st1, err) = os_MkdirAll st (filepath_Dir writePath)
      in if err \<noteq> None then (st1, err)
         else os_WriteFile st1 writePath bytes)"

definition Get :: "FileObjectStore \<Rightarrow> fs \<Rightarrow> Path \<Rightarrow> byte list \<times> error option" where
  "Get s st location =
     (let filePath = filepath_Join [Raw (BaseURI s), Raw location]
      in os_ReadFile st filePath)"

text \<open>
  \<open>Head\<close> after its call of \<^verbatim>\<open>os.Stat\<close>: \<open>info\<close> is nil whenever \<open>err\<close> is
  not, and the code reads \<open>info\<close> on every error that is not a not-exist error.
\<close>

definition Head_stat ::
  "string \<Rightarrow> FileInfo option \<times> error option \<Rightarrow> (ObjectMeta \<times> error option) outcome" where
  "Head_stat filePath r =
     (let meta = zero_ObjectMeta;
          (info, err) = r
      in if os_IsNotExist err
         then Return (meta, errors_Join [Some ErrorObjectDoesNotExist, err])
         else
           (case info of
              None \<Rightarrow> Panic
            | Some info \<Rightarrow>
                (let meta = meta\<lparr>Size := fi_Size info\<rparr>;
                     meta = meta\<lparr>Location := \<lparr>Raw = filePath\<rparr>\<rparr>;
                     meta = meta\<lparr>LastModified := fi_ModTime info\<rparr>
                 in if fi_IsDir info then Return (meta, Some ErrorObjectIsDir)
                    else Return (meta, None))))"

definition Head ::
  "FileObjectStore \<Rightarrow> fs \<Rightarrow> Path \<Rightarrow> (ObjectMeta \<times> error option) outcome" where
  "Head s st location =
     (let filePath = filepath_Join [Raw (BaseURI s), Raw location]
      in Head_stat filePath (os_Stat st filePath))"

definition Rename :: "FileObjectStore \<Rightarrow> fs \<Rightarrow> Path \<Rightarrow> Path \<Rightarrow> fs \<times> error option" where
  "Rename s st from to =
     (let f = Path_Join (BaseURI s) from;
          t = Path_Join (BaseURI s) to;
          (st1, err) = os_Rename st (Raw f) (Raw t)
      in if err \<noteq> None then (st1, errors_Join [Some ErrorObjectDoesNotExist, err])
         else (st1, err))"

text \<open>
  \<open>RenameIfNotExists\<close> is the call of \<open>Head\<close> on the destination followed by
  the rest of its body, which \<open>RenameIfNotExists_rest\<close> is: the test of the error
  \<open>Head\<close> returned, and the rename. The message of the error is the format with the
  raw destination in it; the text of the wrapped sentinel stands as \<^verbatim>\<open>%w\<close>.
\<close>

definition RenameIfNotExists_rest ::
  "FileObjectStore \<Rightarrow> fs \<Rightarrow> Path \<Rightarrow> Path \<Rightarrow> ObjectMeta \<times> error option \<Rightarrow>
     (fs \<times> error option) outcome" where
  "RenameIfNotExists_rest s st from to r =
     (case r of
        (meta, err) \<Rightarrow>
          if \<not> errors_Is err ErrorObjectDoesNotExist
          then Return (st, Some (wrapError
                 (''error %w: Object at location '' @ Raw to @ '' already exists'')
                 ErrorVersionAlreadyExists))
          else
            (let (st1, err) = Rename s st from to
             in if err \<noteq> None then Return (st1, err)
                else Return (st1, None)))"

definition RenameIfNotExists ::
  "FileObjectStore \<Rightarrow> fs \<Rightarrow> Path \<Rightarrow> Path \<Rightarrow> (fs \<times> error option) outcome" where
  "RenameIfNotExists s st from to =
     (case Head s st to of
        Panic \<Rightarrow> Panic
      | Return r \<Rightarrow> RenameIfNotExists_rest s st from to r)"

text \<open>
  \<open>objectMetaFromFileInfo\<close> indexes the last byte of the location of a directory,
  which panics when the location is empty.
\<close>

definition objectMetaFromFileInfo ::
  "FileInfo \<Rightarrow> string \<Rightarrow> bool \<Rightarrow> string \<Rightarrow> string \<Rightarrow> (ObjectMeta \<times> error option) outcome" where
  "objectMetaFromFileInfo info name isDir parentDir trimPrefix =
     (let meta = zero_ObjectMeta\<lparr>LastModified := fi_ModTime info\<rparr>;
          location = strings_TrimPrefix (path_Join [parentDir, name]) trimPrefix
      in if isDir then
           (let meta = meta\<lparr>Size := 0\<rparr>
            in if location = [] then Panic
               else
                 (let location =
                        (if \<not> os_IsPathSeparator (last location)
                         then location @ [filepath_Separator] else location)
                  in Return (meta\<lparr>Location := NewPath location\<rparr>, None)))
         else
           (let meta = meta\<lparr>Size := fi_Size info\<rparr>
            in Return (meta\<lparr>Location := NewPath location\<rparr>, None)))"

text \<open>
  The entry of the model carries its file information, so \<^verbatim>\<open>dirEntry.Info()\<close>
  does not fail.
\<close>

definition objectMetaFromDirEntry ::
  "DirEntry \<Rightarrow> string \<Rightarrow> string \<Rightarrow> (ObjectMeta \<times> error option) outcome" where
  "objectMetaFromDirEntry dirEntry parentDir trimPrefix =
     objectMetaFromFileInfo (de_Info dirEntry) (de_Name dirEntry) (de_IsDir dirEntry)
       parentDir trimPrefix"

text \<open>
  \<open>listFilesInDirRecursively\<close> calls itself on every directory it meets. The first
  argument bounds the depth of the calls: \<open>None\<close> is a listing that ran out of it.
  \<open>listEntries\<close> is the loop over the entries of one directory, with the results so
  far in \<open>out\<close>.
\<close>

fun listFilesInDirRecursively ::
    "nat \<Rightarrow> fs \<Rightarrow> string \<Rightarrow> string \<Rightarrow> string \<Rightarrow> (ObjectMeta list \<times> error option) outcome option"
  and listEntries ::
    "nat \<Rightarrow> fs \<Rightarrow> string \<Rightarrow> string \<Rightarrow> string \<Rightarrow> DirEntry list \<Rightarrow> ObjectMeta list \<Rightarrow>
       (ObjectMeta list \<times> error option) outcome option" where
  "listFilesInDirRecursively 0 st baseURI dir pre = None"
| "listFilesInDirRecursively (Suc n) st baseURI dir pre =
     (case os_ReadDir st dir of
        (results, err) \<Rightarrow>
          if os_IsNotExist err then Some (Return ([], None))
          else if err \<noteq> None then Some (Return ([], err))
          else listEntries n st baseURI dir pre results [])"
| "listEntries n st baseURI dir pre [] out = Some (Return (out, None))"
| "listEntries n st baseURI dir pre (r # rs) out =
     (if pre = [] \<or> strings_HasPrefix (de_Name r) pre then
        (case objectMetaFromDirEntry r dir baseURI of
           Panic \<Rightarrow> Some Panic
         | Return (meta, Some err) \<Rightarrow> Some (Return ([], Some err))
         | Return (meta, None) \<Rightarrow>
             if de_IsDir r then
               (case listFilesInDirRecursively n st baseURI (path_Join [dir, de_Name r]) [] of
                  None \<Rightarrow> None
                | Some Panic \<Rightarrow> Some Panic
                | Some (Return (subdirResults, Some err)) \<Rightarrow> Some (Return ([], Some err))
                | Some (Return (subdirResults, None)) \<Rightarrow>
                    listEntries n st baseURI dir pre rs (out @ [meta] @ subdirResults))
             else listEntries n st baseURI dir pre rs (out @ [meta]))
      else listEntries n st baseURI dir pre rs out)"

definition List ::
  "nat \<Rightarrow> FileObjectStore \<Rightarrow> fs \<Rightarrow> Path \<Rightarrow> (ObjectMeta list \<times> error option) outcome option" where
  "List n s st pre =
     (let (dir, filePrefix) = filepath_Split (Raw pre);
          fullDir = filepath_Join [Raw (BaseURI s), dir]
      in if filePrefix = [] \<and> fullDir = [] then Some Panic
         else
           (let fullDir =
                  (if filePrefix = [] \<and> \<not> os_IsPathSeparator (last fullDir)
                   then fullDir @ [filepath_Separator] else fullDir);
                baseURI = Raw (BaseURI s)
            in if baseURI = [] then Some Panic
               else
                 (let baseURI =
                        (if \<not> os_IsPathSeparator (last baseURI)
                         then baseURI @ [filepath_Separator] else baseURI)
                  in case listFilesInDirRecursively n st baseURI fullDir filePrefix of
                       None \<Rightarrow> None
                     | Some Panic \<Rightarrow> Some Panic
                     | Some (Return (files, Some err)) \<Rightarrow>
                         Some (Return ([], errors_Join [Some ErrorListObjects, Some err]))
                     | Some (Return (files, None)) \<Rightarrow>
                         if dir \<noteq> [] \<and> filePrefix = [] then
                           (case os_Stat st (filepath_Join [Raw (BaseURI s), dir]) of
                              (info, Some err) \<Rightarrow>
                                if \<not> os_IsNotExist (Some err)
                                then Some (Return ([], errors_Join [Some ErrorListObjects, Some err]))
                                else Some (Return (files, None))
                            | (None, None) \<Rightarrow> Some Panic
                            | (Some info, None) \<Rightarrow>
                                (case objectMetaFromFileInfo info dir True [] baseURI of
                                   Panic \<Rightarrow> Some Panic
                                 | Return (meta, Some err) \<Rightarrow>
                                     Some (Return ([], errors_Join [Some ErrorListObjects, Some err]))
                                 | Return (meta, None) \<Rightarrow> Some (Return (files @ [meta], None))))
                         else Some (Return (files, None)))))"

subsection \<open>An example store\<close>

text \<open>
  The store at \<open>/store\<close> holds the files \<open>a/x\<close> (three bytes) and \<open>a/b/y\<close>
  (one byte); the directories report a size of 4096 bytes.
\<close>

definition ex_store :: FileObjectStore where
  "ex_store = New (NewPath ''/store'')"

definition ex_fs :: fs where
  "ex_fs =
     \<lparr>root = Dir 0 4096
        [(''store'', Dir 5 4096
           [(''a'', Dir 5 4096
              [(''x'', File [1, 2, 3] 5),
               (''b'', Dir 5 4096 [(''y'', File [4] 5)])])])],
      cwd = [], clock = 7, mkdir_size = 4096\<rparr>"

text \<open>
  A store with two staged commits and no commit file yet, and the same store after the
  first staged file was renamed to the commit file.
\<close>

definition race_fs :: fs where
  "race_fs =
     \<lparr>root = Dir 0 4096
        [(''store'', Dir 5 4096 [(''sA'', File [1] 3), (''sB'', File [2] 4)])],
      cwd = [], clock = 7, mkdir_size = 4096\<rparr>"

definition race_fs1 :: fs where
  "race_fs1 =
     \<lparr>root = Dir 0 4096
        [(''store'', Dir 7 4096 [(''sB'', File [2] 4), (''commit'', File [1] 3)])],
      cwd = [], clock = 7, mkdir_size = 4096\<rparr>"

text \<open>
  Two callers of \<open>RenameIfNotExists\<close> with the same destination, each running the
  two steps of the function (the call of \<open>Head\<close>, then the rest), in the schedule
  where both have checked the destination before either renames. The result is the
  error of each caller and the final state.
\<close>

definition interleaved ::
  "FileObjectStore \<Rightarrow> fs \<Rightarrow> Path \<Rightarrow> Path \<Rightarrow> Path \<Rightarrow>
     ((error option \<times> error option) \<times> fs) outcome" where
  "interleaved s st stagingA stagingB p =
     (case Head s st p of
        Panic \<Rightarrow> Panic
      | Return checkA \<Rightarrow>
          (case Head s st p of
             Panic \<Rightarrow> Panic
           | Return checkB \<Rightarrow>
               (case RenameIfNotExists_rest s st stagingA p checkA of
                  Panic \<Rightarrow> Panic
                | Return (st1, errA) \<Rightarrow>
                    (case RenameIfNotExists_rest s st1 stagingB p checkB of
                       Panic \<Rightarrow> Panic
                     | Return (st2, errB) \<Rightarrow> Return ((errA, errB), st2)))))"

subsection \<open>Well-formed file systems and the listing in the words of the spec\<close>

text \<open>
  A name of a directory entry is not empty, is neither \<open>''.''\<close> nor \<open>''..''\<close> and
  holds no separator; in a well-formed tree every entry has such a name and no directory
  has two entries of one name. \<open>abs_path\<close> is the absolute, normalised path with the
  given elements, \<open>rel_dir\<close> the relative directory prefix with the given elements
  (each followed by the separator), and \<open>height\<close> the depth of a tree, which bounds
  the depth of the calls of a listing.
\<close>

definition valid_name :: "string \<Rightarrow> bool" where
  "valid_name c = (c \<noteq> [] \<and> c \<noteq> ''.'' \<and> c \<noteq> ''..'' \<and> CHR ''/'' \<notin> set c)"

definition abs_path :: "string list \<Rightarrow> string" where
  "abs_path ps = CHR ''/'' # join_slash ps"

definition rel_dir :: "string list \<Rightarrow> string" where
  "rel_dir ds = concat (map (\<lambda>d. d @ ''/'') ds)"

fun wf_node :: "node \<Rightarrow> bool" where
  "wf_node (File b m) = True"
| "wf_node (Dir m s es) =
     (distinct (map fst es) \<and> list_all (\<lambda>e. valid_name (fst e) \<and> wf_node (snd e)) es)"

fun height :: "node \<Rightarrow> nat" where
  "height (File b m) = 0"
| "height (Dir m s es) = Suc (foldr max (map (\<lambda>e. height (snd e)) es) 0)"

text \<open>
  The listing as the spec describes it, by recursion over the tree. An entry gets the
  path of its elements joined by the separator, relative to the base; a directory gets
  the separator at its end and the size 0. \<open>entries_below\<close> is everything beneath a
  directory, with no filter. \<open>matching_entries\<close> is the first level of a listing:
  the entries whose name starts with the name prefix (the empty prefix matches all), each
  followed by everything beneath it. \<open>List_spec\<close> adds the entry of the listed
  directory itself when the prefix has a directory part and no name prefix.
\<close>

definition entry_of :: "string list \<Rightarrow> node \<Rightarrow> ObjectMeta" where
  "entry_of qs n =
     (case n of
        File b m \<Rightarrow>
          \<lparr>Location = NewPath (join_slash qs), LastModified = m, Size = int (length b)\<rparr>
      | Dir m s es \<Rightarrow>
          \<lparr>Location = NewPath (join_slash qs @ ''/''), LastModified = m, Size = 0\<rparr>)"

fun entries_below :: "string list \<Rightarrow> node \<Rightarrow> ObjectMeta list" where
  "entries_below qs (File b m) = []"
| "entries_below qs (Dir m s es) =
     concat (map (\<lambda>e. entry_of (qs @ [fst e]) (snd e) # entries_below (qs @ [fst e]) (snd e))
       (sort_key fst es))"

definition matching_entries :: "string \<Rightarrow> string list \<Rightarrow> (string \<times> node) list \<Rightarrow> ObjectMeta list" where
  "matching_entries fp qs es =
     concat (map (\<lambda>e. if fp = [] \<or> prefix fp (fst e)
                       then entry_of (qs @ [fst e]) (snd e) # entries_below (qs @ [fst e]) (snd e)
                       else [])
       (sort_key fst es))"

definition List_spec :: "string \<Rightarrow> string list \<Rightarrow> node \<Rightarrow> ObjectMeta list" where
  "List_spec fp ds D =
     (case D of
        File b m \<Rightarrow> []
      | Dir m s es \<Rightarrow>
          matching_entries fp ds es @
          (if ds \<noteq> [] \<and> fp = []
           then [\<lparr>Location = NewPath (rel_dir ds), LastModified = m, Size = 0\<rparr>]
           else []))"

text \<open>
  A store that holds the three files \<open>abc.txt\<close>, \<open>abd.txt\<close> and \<open>xyz.txt\<close>.
\<close>

definition prefix_fs :: fs where
  "prefix_fs =
     \<lparr>root = Dir 0 4096
        [(''store'', Dir 5 4096
           [(''xyz.txt'', File [3] 4), (''abd.txt'', File [2, 2] 3), (''abc.txt'', File [1] 2)])],
      cwd = [], clock = 7, mkdir_size = 4096\<rparr>"

section \<open>Properties of the file system\<close>

lemma is_Dir_iff: "is_Dir x \<longleftrightarrow> (\<exists>m s es. x = Some (Dir m s es))"
  by (cases x rule: is_Dir.cases) auto

lemma lookup_append:
  "lookup r (xs @ ys) = (case lookup r xs of None \<Rightarrow> None | Some n \<Rightarrow> lookup n ys)"
  by (induction r xs rule: lookup.induct) (auto split: option.splits)

lemma lookup_snoc_Some:
  "lookup r (xs @ [c]) = Some n \<Longrightarrow> is_Dir (lookup r xs)"
  by (auto simp: lookup_append is_Dir_iff split: option.splits elim: lookup.elims)

lemma is_Dir_parent: "is_Dir (lookup r p) \<Longrightarrow> is_Dir (lookup r (butlast p))"
proof (cases p rule: rev_cases)
  case Nil
  then show "is_Dir (lookup r p) \<Longrightarrow> ?thesis" by simp
next
  case (snoc xs c)
  assume "is_Dir (lookup r p)"
  with snoc obtain n where "lookup r (xs @ [c]) = Some n"
    by (auto simp: is_Dir_iff)
  from lookup_snoc_Some [OF this] snoc show ?thesis by simp
qed

lemma lookup_alter_same:
  "p \<noteq> [] \<Longrightarrow> is_Dir (lookup r (butlast p)) \<Longrightarrow>
   lookup (alter p stamp f r) p = f (lookup r p)"
proof (induction p stamp f r rule: alter.induct)
  case (3 c stamp f m s es)
  show ?case
    by (cases "f (map_of es c)")
      (auto simp: update_conv' delete_conv' split: option.splits)
next
  case (4 c d cs stamp f m s es)
  then show ?case
    by (auto simp: update_conv' is_Dir_iff split: option.splits)
qed (simp_all split: if_splits)

lemma is_Dir_lookup_alter:
  "\<forall>n. \<not> is_Dir n \<longrightarrow> \<not> is_Dir (f n) \<Longrightarrow> \<not> is_Dir (lookup r p) \<Longrightarrow>
   is_Dir (lookup (alter p stamp f r) x) = is_Dir (lookup r x)"
proof (induction p stamp f r arbitrary: x rule: alter.induct)
  case (3 c stamp f m s es)
  show ?case
  proof (cases x)
    case Nil
    then show ?thesis by simp
  next
    case (Cons y ys)
    show ?thesis
    proof (cases "y = c")
      case False
      with Cons show ?thesis
        by (auto simp: update_conv' delete_conv' split: option.splits)
    next
      case True
      from 3 have nd: "\<not> is_Dir (map_of es c)"
        by (auto simp: is_Dir_iff split: option.splits)
      with 3(1) have nd': "\<not> is_Dir (f (map_of es c))" by simp
      have a: "\<not> is_Dir (lookup (Dir m s es) x)"
        using nd Cons True
        by (cases ys) (auto simp: is_Dir_iff split: option.splits elim: lookup.elims)
      have b: "\<not> is_Dir (lookup (alter [c] stamp f (Dir m s es)) x)"
        using nd' Cons True
        by (cases ys)
          (auto simp: is_Dir_iff update_conv' delete_conv' split: option.splits
            elim: lookup.elims)
      from a b show ?thesis by simp
    qed
  qed
next
  case (4 c d cs stamp f m s es)
  show ?case
  proof (cases x)
    case Nil
    then show ?thesis by (simp split: option.splits)
  next
    case (Cons y ys)
    show ?thesis
    proof (cases "map_of es c")
      case None
      then show ?thesis by simp
    next
      case (Some n)
      from 4(3) Some have "\<not> is_Dir (lookup n (d # cs))" by simp
      from 4(1) [OF Some 4(2) this] Some Cons show ?thesis
        by (auto simp: update_conv' split: option.splits)
    qed
  qed
qed simp_all

lemma walk_cong_is_Dir:
  assumes "\<And>x. is_Dir (lookup r' x) = is_Dir (lookup r x)"
  shows "walk r cur cs = Inr q \<Longrightarrow> walk r' cur cs = Inr q"
proof (induction cs arbitrary: cur)
  case Nil
  then show ?case by simp
next
  case (Cons c cs)
  from Cons.prems obtain m s es where d: "lookup r cur = Some (Dir m s es)"
    by (auto split: option.splits node.splits)
  with assms [of cur] obtain m' s' es' where d': "lookup r' cur = Some (Dir m' s' es')"
    by (auto simp: is_Dir_iff)
  from Cons.prems d d' Cons.IH show ?case
    by (auto split: if_splits)
qed

lemma walk_result:
  "walk r cur cs = Inr p \<Longrightarrow> cs \<noteq> [] \<Longrightarrow>
   is_Dir (lookup r p) \<or> (p \<noteq> [] \<and> is_Dir (lookup r (butlast p)))"
proof (induction cs arbitrary: cur)
  case Nil
  then show ?case by simp
next
  case (Cons c cs)
  from Cons.prems obtain m s es where d: "lookup r cur = Some (Dir m s es)"
    by (auto split: option.splits node.splits)
  then have dc: "is_Dir (lookup r cur)" by simp
  show ?case
  proof (cases "cs = []")
    case False
    with Cons.prems d Cons.IH show ?thesis
      by (auto split: if_splits)
  next
    case True
    with Cons.prems d dc is_Dir_parent [OF dc] show ?thesis
      by (auto split: if_splits)
  qed
qed

lemma split_slash_not_Nil: "split_slash name \<noteq> []"
  by (induction name) (auto split: list.splits)

lemma resolve_result:
  "resolve st name = Inr p \<Longrightarrow>
   is_Dir (lookup (root st) p) \<or> (p \<noteq> [] \<and> is_Dir (lookup (root st) (butlast p)))"
  unfolding resolve_def
  by (auto split: if_splits intro!: walk_result [OF _ split_slash_not_Nil])

lemma resolve_cong_is_Dir:
  assumes "\<And>x. is_Dir (lookup (root st') x) = is_Dir (lookup (root st) x)"
    and "cwd st' = cwd st"
  shows "resolve st name = Inr q \<Longrightarrow> resolve st' name = Inr q"
  unfolding resolve_def using assms(2)
  by (auto split: if_splits intro!: walk_cong_is_Dir [OF assms(1)])

lemma os_WriteFile_ReadFile:
  assumes "os_WriteFile st name data = (st', None)"
  shows "os_ReadFile st' name = (data, None)"
proof -
  from assms obtain p where p: "resolve st name = Inr p"
    by (auto simp: os_WriteFile_def split: sum.splits)
  from assms p have nd: "\<not> is_Dir (lookup (root st) p)"
    by (auto simp: os_WriteFile_def is_Dir_iff split: option.splits node.splits)
  from assms p obtain stamp where st':
    "st' = st\<lparr>root := alter p stamp (\<lambda>_. Some (File data (clock st))) (root st)\<rparr>"
    by (auto simp: os_WriteFile_def split: option.splits node.splits)
  have dirs: "\<And>x. is_Dir (lookup (root st') x) = is_Dir (lookup (root st) x)"
    unfolding st' using nd by (simp add: is_Dir_lookup_alter)
  have cw: "cwd st' = cwd st" by (simp add: st')
  from resolve_cong_is_Dir [of st' st, OF dirs cw p] have p': "resolve st' name = Inr p" .
  from resolve_result [OF p] nd have par: "p \<noteq> []" "is_Dir (lookup (root st) (butlast p))"
    by auto
  have "lookup (root st') p = Some (File data (clock st))"
    unfolding st' using lookup_alter_same [OF par] by simp
  with p' show ?thesis by (simp add: os_ReadFile_def)
qed

lemma os_Stat_fails_lookup:
  assumes "fst (os_Stat st name) = None" and "resolve st name = Inr q"
  shows "lookup (root st) q = None"
  using assms by (auto simp: os_Stat_def split: option.splits)

lemma sys_rename_file:
  assumes ok: "sys_rename st old new = (st1, None)"
    and rd: "os_ReadFile st old = (a, None)"
    and ns: "fst (os_Stat st new) = None"
  shows "\<exists>m. os_ReadFile st1 new = (a, None)
           \<and> os_Stat st1 new = (Some (stat_node (File a m)), None)"
proof -
  from ok obtain p where p: "resolve st old = Inr p"
    by (auto simp: sys_rename_def split: sum.splits)
  from ok p obtain q where q: "resolve st new = Inr q"
    by (auto simp: sys_rename_def split: sum.splits)
  from rd p obtain m where n: "lookup (root st) p = Some (File a m)"
    by (auto simp: os_ReadFile_def split: option.splits node.splits)
  from os_Stat_fails_lookup [OF ns q] have qn: "lookup (root st) q = None" .
  with n have pq: "p \<noteq> q" by auto
  let ?r1 = "alter p (Some (clock st)) (\<lambda>_. None) (root st)"
  let ?r2 = "alter q (Some (clock st)) (\<lambda>_. Some (File a m)) ?r1"
  from ok p q n qn pq have st1: "st1 = st\<lparr>root := ?r2\<rparr>"
    by (auto simp: sys_rename_def split: if_splits)
  have d1: "\<And>x. is_Dir (lookup ?r1 x) = is_Dir (lookup (root st) x)"
    using n by (simp add: is_Dir_lookup_alter)
  have "\<not> is_Dir (lookup ?r1 q)" using d1 [of q] qn by simp
  then have d2: "\<And>x. is_Dir (lookup ?r2 x) = is_Dir (lookup ?r1 x)"
    by (simp add: is_Dir_lookup_alter)
  have dirs: "\<And>x. is_Dir (lookup (root st1) x) = is_Dir (lookup (root st) x)"
    by (simp add: st1 d1 d2)
  have cw: "cwd st1 = cwd st" by (simp add: st1)
  from resolve_cong_is_Dir [of st1 st, OF dirs cw q] have q1: "resolve st1 new = Inr q" .
  from resolve_result [OF q] qn have "q \<noteq> []" "is_Dir (lookup (root st) (butlast q))"
    by auto
  with d1 have par: "q \<noteq> []" "is_Dir (lookup ?r1 (butlast q))" by auto
  have "lookup (root st1) q = Some (File a m)"
    unfolding st1 using lookup_alter_same [OF par] by simp
  with q1 show ?thesis
    by (auto simp: os_ReadFile_def os_Stat_def)
qed

lemma os_Rename_file:
  assumes ok: "os_Rename st old new = (st1, None)"
    and rd: "os_ReadFile st old = (a, None)"
    and ns: "fst (os_Stat st new) = None"
  shows "\<exists>m. os_ReadFile st1 new = (a, None)
           \<and> os_Stat st1 new = (Some (stat_node (File a m)), None)"
proof -
  from ok have "sys_rename st old new = (st1, None)"
    by (auto simp: os_Rename_def Let_def split: option.splits prod.splits)
  from sys_rename_file [OF this rd ns] show ?thesis .
qed

lemma Head_not_exist_stat:
  assumes "Head s st to = Return (meta, err)" and "errors_Is err ErrorObjectDoesNotExist"
  shows "fst (os_Stat st (filepath_Join [Raw (BaseURI s), Raw to])) = None"
proof -
  let ?p = "filepath_Join [Raw (BaseURI s), Raw to]"
  obtain info e where st: "os_Stat st ?p = (info, e)" by (cases "os_Stat st ?p")
  have "info = None"
  proof (cases info)
    case None then show ?thesis .
  next
    case (Some i)
    with st have "e = None"
      by (auto simp: os_Stat_def split: sum.splits option.splits)
    with st Some assms show ?thesis
      by (auto simp: Head_def Head_stat_def Let_def errors_Is_def split: if_splits)
  qed
  with st show ?thesis by simp
qed

subsection \<open>Normalised paths\<close>

lemma split_slash_append:
  "split_slash (x @ CHR ''/'' # y) = split_slash x @ split_slash y"
  by (induction x) (auto simp: split_slash_not_Nil split: list.splits)

lemma split_slash_no_slash: "CHR ''/'' \<notin> set c \<Longrightarrow> split_slash c = [c]"
  by (induction c) auto

lemma split_slash_join:
  "ps \<noteq> [] \<Longrightarrow> \<forall>p\<in>set ps. CHR ''/'' \<notin> set p \<Longrightarrow> split_slash (join_slash ps) = ps"
  by (induction ps rule: join_slash.induct)
    (auto simp: split_slash_append split_slash_no_slash)

lemma join_slash_append:
  "xs \<noteq> [] \<Longrightarrow> ys \<noteq> [] \<Longrightarrow> join_slash (xs @ ys) = join_slash xs @ CHR ''/'' # join_slash ys"
  by (induction xs rule: join_slash.induct) (auto simp: neq_Nil_conv)

lemma join_slash_snoc:
  "xs \<noteq> [] \<Longrightarrow> join_slash (xs @ [y]) = join_slash xs @ CHR ''/'' # y"
  by (simp add: join_slash_append)

lemma clean_step_names:
  "\<forall>c\<in>set cs. c = [] \<or> valid_name c \<Longrightarrow>
   foldl (clean_step r) st cs = st @ filter (\<lambda>c. c \<noteq> []) cs"
  by (induction cs arbitrary: st) (auto simp: clean_step_def valid_name_def)

lemma valid_no_slash: "list_all valid_name ps \<Longrightarrow> \<forall>p\<in>set ps. CHR ''/'' \<notin> set p"
  by (auto simp: list_all_iff valid_name_def)

lemma split_abs_path:
  "list_all valid_name ps \<Longrightarrow> ps \<noteq> [] \<Longrightarrow> split_slash (abs_path ps) = [] # ps"
  by (simp add: abs_path_def split_slash_join valid_no_slash)

lemma split_rel_dir:
  "list_all valid_name ds \<Longrightarrow> split_slash (rel_dir ds) = ds @ [[]]"
  by (induction ds) (auto simp: rel_dir_def split_slash_append split_slash_no_slash valid_name_def)

lemma filter_valid: "list_all valid_name ps \<Longrightarrow> filter (\<lambda>c. c \<noteq> []) ps = ps"
  by (induction ps) (auto simp: valid_name_def)

lemma Clean_rooted_names:
  assumes "p \<noteq> []" "hd p = CHR ''/''"
    and "\<forall>c\<in>set (split_slash p). c = [] \<or> valid_name c"
  shows "filepath_Clean p = abs_path (filter (\<lambda>c. c \<noteq> []) (split_slash p))"
  using assms by (simp add: filepath_Clean_def Let_def clean_step_names abs_path_def)

lemma Join_base_dir:
  assumes "list_all valid_name bs" "bs \<noteq> []" "list_all valid_name ds"
  shows "filepath_Join [abs_path bs, rel_dir ds] = abs_path (bs @ ds)"
proof -
  let ?p = "abs_path bs @ CHR ''/'' # rel_dir ds"
  have sp: "split_slash ?p = ([] # bs) @ ds @ [[]]"
    using assms by (simp add: split_slash_append split_abs_path split_rel_dir)
  have el: "\<forall>c\<in>set (split_slash ?p). c = [] \<or> valid_name c"
    unfolding sp using assms by (auto simp: list_all_iff)
  have "filepath_Clean ?p = abs_path (filter (\<lambda>c. c \<noteq> []) (split_slash ?p))"
    by (rule Clean_rooted_names [OF _ _ el]) (simp_all add: abs_path_def)
  also have "\<dots> = abs_path (bs @ ds)"
    using assms by (simp add: sp filter_valid)
  finally show ?thesis
    by (simp add: filepath_Join_def abs_path_def)
qed

lemma path_Join_child:
  assumes "list_all valid_name ps" "ps \<noteq> []" "valid_name c"
    and "d = abs_path ps \<or> d = abs_path ps @ ''/''"
  shows "path_Join [d, c] = abs_path (ps @ [c])"
proof -
  let ?p = "d @ CHR ''/'' # c"
  from assms have sp: "split_slash ?p = ([] # ps) @ [c] \<or> split_slash ?p = ([] # ps) @ [[], c]"
    by (auto simp: split_slash_append split_abs_path split_slash_no_slash valid_name_def)
  have el: "\<forall>c\<in>set (split_slash ?p). c = [] \<or> valid_name c"
    using sp assms by (auto simp: list_all_iff)
  have "filepath_Clean ?p = abs_path (filter (\<lambda>c. c \<noteq> []) (split_slash ?p))"
    by (rule Clean_rooted_names [OF _ _ el]) (use assms in \<open>auto simp: abs_path_def\<close>)
  also have "\<dots> = abs_path (ps @ [c])"
    using assms sp by (auto simp: filter_valid valid_name_def)
  finally show ?thesis
    using assms by (auto simp: path_Join_def abs_path_def valid_name_def)
qed

lemma Join_empty_dir:
  assumes "list_all valid_name ds" "ds \<noteq> []"
  shows "path_Join [[], rel_dir ds] = join_slash ds"
proof -
  from assms obtain d ds' where ds: "ds = d # ds'" by (cases ds) auto
  with assms have ne: "rel_dir ds \<noteq> []" "hd (rel_dir ds) \<noteq> CHR ''/''"
    by (auto simp: rel_dir_def valid_name_def neq_Nil_conv)
  have "foldl (clean_step False) [] (split_slash (rel_dir ds)) = ds"
    using assms by (simp add: split_rel_dir clean_step_names list_all_iff filter_valid
        clean_step_def)
  with ne assms show ?thesis
    by (auto simp: path_Join_def filepath_Clean_def Let_def split: list.splits)
qed

lemma Split_prefix:
  assumes "CHR ''/'' \<notin> set fp"
  shows "filepath_Split (rel_dir ds @ fp) = (rel_dir ds, fp)"
proof -
  have "takeWhile (\<lambda>c. \<not> os_IsPathSeparator c) (rev fp @ rev (rel_dir ds)) = rev fp"
  proof (cases ds rule: rev_cases)
    case Nil
    with assms show ?thesis by (auto simp: rel_dir_def os_IsPathSeparator_def)
  next
    case (snoc ds' d)
    have "rev (rel_dir ds) = CHR ''/'' # rev d @ rev (rel_dir ds')"
      by (simp add: snoc rel_dir_def)
    with assms show ?thesis
      by (simp add: takeWhile_append os_IsPathSeparator_def takeWhile_tail)
  qed
  then show ?thesis
    by (simp add: filepath_Split_def Let_def)
qed

lemma lookup_prefix_dir:
  "lookup r (xs @ ys) = Some n \<Longrightarrow> ys \<noteq> [] \<Longrightarrow> is_Dir (lookup r xs)"
  by (cases ys)
    (auto simp: lookup_append is_Dir_iff split: option.splits elim: lookup.elims)

lemma walk_names:
  "lookup r (cur @ ps) = Some n \<Longrightarrow> list_all valid_name ps \<Longrightarrow> walk r cur ps = Inr (cur @ ps)"
proof (induction ps arbitrary: cur)
  case Nil
  then show ?case by simp
next
  case (Cons c cs)
  from lookup_prefix_dir [OF Cons.prems(1)] obtain m s es
    where d: "lookup r cur = Some (Dir m s es)" by (auto simp: is_Dir_iff)
  from Cons.prems have v: "c \<noteq> []" "c \<noteq> ''.''" "c \<noteq> ''..''" by (auto simp: valid_name_def)
  from Cons.IH [of "cur @ [c]"] Cons.prems have "walk r (cur @ [c]) cs = Inr (cur @ c # cs)"
    by simp
  with d v show ?case by simp
qed

lemma walk_append:
  "walk r cur (xs @ ys) = (case walk r cur xs of Inl e \<Rightarrow> Inl e | Inr p \<Rightarrow> walk r p ys)"
  by (induction xs arbitrary: cur) (auto split: option.splits node.splits)

lemma walk_abs:
  assumes "list_all valid_name ps" "ps \<noteq> []" "lookup (root st) ps = Some n"
  shows "walk (root st) [] ([] # ps) = Inr ps"
proof -
  from lookup_prefix_dir [of "root st" "[]" ps n] assms obtain m s es
    where "root st = Dir m s es" by (auto simp: is_Dir_iff)
  moreover from walk_names [of "root st" "[]" ps n] assms have "walk (root st) [] ps = Inr ps"
    by simp
  ultimately show ?thesis by simp
qed

lemma resolve_abs:
  assumes "list_all valid_name ps" "ps \<noteq> []" "lookup (root st) ps = Some n"
  shows "resolve st (abs_path ps) = Inr ps"
proof -
  have "split_slash (abs_path ps) = [] # ps"
    using assms by (simp add: split_abs_path)
  with walk_abs [OF assms] show ?thesis
    by (simp add: resolve_def) (simp add: abs_path_def)
qed

lemma resolve_abs_slash:
  assumes "list_all valid_name ps" "ps \<noteq> []" "lookup (root st) ps = Some (Dir m s es)"
  shows "resolve st (abs_path ps @ ''/'') = Inr ps"
proof -
  have sp: "split_slash (abs_path ps @ ''/'') = ([] # ps) @ [[]]"
    using assms by (simp add: split_slash_append split_abs_path)
  have "walk (root st) [] (([] # ps) @ [[]]) = Inr ps"
    unfolding walk_append using walk_abs [OF assms] assms(3) by simp
  with sp show ?thesis
    by (simp add: resolve_def) (simp add: abs_path_def)
qed

lemma os_ReadDir_abs:
  assumes "list_all valid_name ps" "ps \<noteq> []" "lookup (root st) ps = Some (Dir m s es)"
    and "d = abs_path ps \<or> d = abs_path ps @ ''/''"
  shows "os_ReadDir st d
         = (map (\<lambda>(c, n). \<lparr>de_Name = c, de_Info = stat_node n\<rparr>) (sort_key fst es), None)"
  using assms resolve_abs [OF assms(1-3)] resolve_abs_slash [OF assms(1-3)]
  by (auto simp: os_ReadDir_def)

lemma os_Stat_abs:
  assumes "list_all valid_name ps" "ps \<noteq> []" "lookup (root st) ps = Some n"
  shows "os_Stat st (abs_path ps) = (Some (stat_node n), None)"
  using assms resolve_abs [OF assms] by (simp add: os_Stat_def)

lemma wf_lookup: "wf_node r \<Longrightarrow> lookup r p = Some n \<Longrightarrow> wf_node n"
proof (induction r p rule: lookup.induct)
  case (3 m s es c cs)
  from 3(3) obtain n' where n': "map_of es c = Some n'" "lookup n' cs = Some n"
    by (auto split: option.splits)
  from map_of_SomeD [OF n'(1)] 3(2) have "wf_node n'"
    by (auto simp: list_all_iff)
  from 3(1) [OF n'(1) this n'(2)] show ?case .
qed simp_all

lemma height_child:
  "e \<in> set es \<Longrightarrow> height (snd e) \<le> foldr max (map (\<lambda>e. height (snd e)) es) 0"
  by (induction es) auto

lemma join_slash_not_Nil: "ps \<noteq> [] \<Longrightarrow> last ps \<noteq> [] \<Longrightarrow> join_slash ps \<noteq> []"
  by (induction ps rule: join_slash.induct) auto

lemma last_join_slash:
  "ps \<noteq> [] \<Longrightarrow> last ps \<noteq> [] \<Longrightarrow> last (join_slash ps) = last (last ps)"
  by (induction ps rule: join_slash.induct) (auto simp: join_slash_not_Nil)

lemma TrimPrefix_base:
  assumes "bs \<noteq> []" "qs \<noteq> []"
  shows "strings_TrimPrefix (abs_path (bs @ qs)) (abs_path bs @ ''/'') = join_slash qs"
  using assms
  by (simp add: strings_TrimPrefix_def strings_HasPrefix_def abs_path_def join_slash_append)

lemma meta_entry:
  assumes "list_all valid_name bs" "bs \<noteq> []" "list_all valid_name qs" "valid_name c"
    and "d = abs_path (bs @ qs) \<or> d = abs_path (bs @ qs) @ ''/''"
  shows "objectMetaFromDirEntry \<lparr>de_Name = c, de_Info = stat_node n\<rparr> d (abs_path bs @ ''/'')
         = Return (entry_of (qs @ [c]) n, None)"
proof -
  have j: "path_Join [d, c] = abs_path (bs @ qs @ [c])"
    using path_Join_child [of "bs @ qs" c d] assms by simp
  have t: "strings_TrimPrefix (abs_path (bs @ qs @ [c])) (abs_path bs @ ''/'')
           = join_slash (qs @ [c])"
    using TrimPrefix_base [of bs "qs @ [c]"] assms by simp
  from assms have c0: "c \<noteq> []" "CHR ''/'' \<notin> set c"
    by (auto simp: valid_name_def)
  then have c: "c \<noteq> []" "last c \<noteq> CHR ''/''"
    by (metis last_in_set)+
  then have l: "join_slash (qs @ [c]) \<noteq> []" "last (join_slash (qs @ [c])) \<noteq> CHR ''/''"
    by (simp_all add: join_slash_not_Nil last_join_slash)
  show ?thesis
    by (cases n)
      (simp_all add: objectMetaFromDirEntry_def objectMetaFromFileInfo_def j t l Let_def
        entry_of_def de_IsDir_def zero_ObjectMeta_def os_IsPathSeparator_def
        filepath_Separator_def)
qed

lemma clean_step_nonempty:
  "[] \<notin> set st \<Longrightarrow> [] \<notin> set (foldl (clean_step r) st cs)"
proof (induction cs arbitrary: st)
  case Nil
  then show ?case by simp
next
  case (Cons c cs)
  have "[] \<notin> set (clean_step r st c)"
    using Cons.prems by (auto simp: clean_step_def dest: in_set_butlastD)
  from Cons.IH [OF this] show ?case by simp
qed

lemma join_slash_Nil_iff: "[] \<notin> set ps \<Longrightarrow> join_slash ps = [] \<longleftrightarrow> ps = []"
  by (induction ps rule: join_slash.induct) auto

lemma Clean_not_Nil: "filepath_Clean p \<noteq> []"
proof -
  have "[] \<notin> set (foldl (clean_step r) [] (split_slash p))" for r
    by (rule clean_step_nonempty) simp
  then show ?thesis
    by (auto simp: filepath_Clean_def Let_def join_slash_Nil_iff)
qed

lemma Join_not_Nil: "base \<noteq> [] \<Longrightarrow> filepath_Join [base, d] \<noteq> []"
  by (simp add: filepath_Join_def Clean_not_Nil)

lemma os_Stat_error:
  "os_Stat st name = (info, Some e) \<Longrightarrow> \<exists>n. e = PathError ''stat'' name n \<and> info = None"
  by (auto simp: os_Stat_def split: sum.splits option.splits)

lemma resolve_slash:
  assumes "name \<noteq> []"
  shows "resolve st (name @ ''/'')
         = (case resolve st name of
              Inl e \<Rightarrow> Inl e
            | Inr p \<Rightarrow> walk (root st) p [[]])"
proof -
  have "split_slash (name @ ''/'') = split_slash name @ [[]]"
    using split_slash_append [of name "[]"] by simp
  with assms show ?thesis
    by (simp add: resolve_def walk_append)
qed

lemma os_ReadDir_not_exist:
  assumes "os_Stat st name = (None, Some e)" "os_IsNotExist (Some e)" "name \<noteq> []"
    and "d = name \<or> d = name @ ''/''"
  shows "\<exists>e'. os_ReadDir st d = ([], Some e') \<and> os_IsNotExist (Some e')"
proof -
  from assms(1,2) have r: "resolve st name = Inl ENOENT
      \<or> (\<exists>p. resolve st name = Inr p \<and> lookup (root st) p = None)"
    by (auto simp: os_Stat_def split: sum.splits option.splits)
  then have "resolve st (name @ ''/'') = Inl ENOENT"
    using assms(3) by (auto simp: resolve_slash)
  with r assms(4) show ?thesis
    by (auto simp: os_ReadDir_def)
qed

section \<open>Properties of the store\<close>

subsection \<open>Head and the outcomes of stat\<close>

lemma Head_stat_nil_info:
  "\<not> os_IsNotExist err \<Longrightarrow> Head_stat filePath (None, err) = Panic"
  by (simp add: Head_stat_def)

lemma Head_stat_permission_denied:
  "Head_stat filePath (None, Some (PathError ''stat'' filePath EACCES)) = Panic"
  by (simp add: Head_stat_def)

text \<open>
  C10. \<open>Head\<close> is not total over the outcomes of \<^verbatim>\<open>os.Stat\<close>: whenever the
  call fails with an error that is not a not-exist error, \<open>Head\<close> reads the nil file
  information and panics, and so does \<open>RenameIfNotExists\<close>, which calls \<open>Head\<close> on
  its destination first. Neither returns an error in that case. (In the modelled file
  system such an error is \<open>ENOTDIR\<close>, for a path that runs through a regular file;
  \<open>Head_stat_permission_denied\<close> is the same fact for a permission error.)
\<close>

theorem Head_panics_on_other_stat_errors:
  assumes "os_Stat st (filepath_Join [Raw (BaseURI s), Raw to]) = (None, Some e)"
    and "\<not> os_IsNotExist (Some e)"
  shows "Head s st to = Panic \<and> RenameIfNotExists s st from to = Panic"
proof -
  have h: "Head s st to = Panic"
    using assms by (simp add: Head_def Head_stat_nil_info)
  then show ?thesis
    by (simp add: RenameIfNotExists_def)
qed

theorem Head_panics_witness:
  "os_Stat ex_fs (filepath_Join [Raw (BaseURI ex_store), Raw (NewPath ''a/x/z'')])
     = (None, Some (PathError ''stat'' ''/store/a/x/z'' ENOTDIR))
   \<and> \<not> os_IsNotExist (Some (PathError ''stat'' ''/store/a/x/z'' ENOTDIR))
   \<and> Head ex_store ex_fs (NewPath ''a/x/z'') = Panic
   \<and> RenameIfNotExists ex_store ex_fs (NewPath ''a/b/y'') (NewPath ''a/x/z'') = Panic"
proof -
  have h1: "os_Stat ex_fs (filepath_Join [Raw (BaseURI ex_store), Raw (NewPath ''a/x/z'')])
     = (None, Some (PathError ''stat'' ''/store/a/x/z'' ENOTDIR))"
    by code_simp
  have h2: "\<not> os_IsNotExist (Some (PathError ''stat'' ''/store/a/x/z'' ENOTDIR))"
    by simp
  from Head_panics_on_other_stat_errors [OF h1 h2, of "NewPath ''a/b/y''"] h1 h2
  show ?thesis by simp
qed

subsection \<open>Get on a missing object\<close>

lemma Get_error_is_not_sentinel:
  "\<not> errors_Is (snd (Get s st location)) ErrorObjectDoesNotExist"
  by (simp add: Get_def os_ReadFile_def errors_Is_def Let_def
      split: sum.splits option.splits node.splits)

text \<open>
  C5. The claim: \<open>Get\<close> of a path at which no object exists fails with an error that
  matches the sentinel \<open>ErrorObjectDoesNotExist\<close>. The code returns the error of
  \<^verbatim>\<open>os.ReadFile\<close> as it is. In the example store nothing exists at \<open>q\<close>, and
  \<open>Get\<close> returns the \<open>PathError\<close> of the failed open, which does not match the
  sentinel (by \<open>Get_error_is_not_sentinel\<close> no error of \<open>Get\<close> ever does).
\<close>

theorem Get_missing_object_raw_error:
  "os_Stat ex_fs ''/store/q'' = (None, Some (PathError ''stat'' ''/store/q'' ENOENT))
   \<and> Get ex_store ex_fs (NewPath ''q'') = ([], Some (PathError ''open'' ''/store/q'' ENOENT))
   \<and> \<not> errors_Is (Some (PathError ''open'' ''/store/q'' ENOENT)) ErrorObjectDoesNotExist"
  by code_simp

subsection \<open>Head on a directory\<close>

lemma Head_directory_stat_size:
  assumes "os_Stat st (filepath_Join [Raw (BaseURI s), Raw location]) = (Some info, None)"
    and "fi_IsDir info"
  shows "Head s st location
         = Return (\<lparr>Location = \<lparr>Raw = filepath_Join [Raw (BaseURI s), Raw location]\<rparr>,
                     LastModified = fi_ModTime info, Size = fi_Size info\<rparr>,
                   Some ErrorObjectIsDir)"
  using assms by (simp add: Head_def Head_stat_def zero_ObjectMeta_def Let_def)

text \<open>
  C6. The claim: for a path that resolves to a directory, \<open>Head\<close> returns
  \<open>ErrorObjectIsDir\<close> together with metadata whose size is 0 and whose location and
  modification time are filled in. The code returns the error and fills the metadata
  in, but the size is the one \<^verbatim>\<open>stat\<close> reports for the directory
  (\<open>Head_directory_stat_size\<close>): \<open>Head\<close> copies it before it tests for a directory
  and never sets it to 0, as the listing does for its directory entries
  (\<open>objectMetaFromFileInfo\<close>; \<open>List_example_result\<close> has the same directory with
  the size 0). In the example store \<open>a\<close> is a directory for which \<^verbatim>\<open>stat\<close>
  reports 4096 bytes, and \<open>Head\<close> returns the size 4096.
\<close>

theorem Head_directory_size_not_zero:
  "os_Stat ex_fs ''/store/a'' = (Some \<lparr>fi_Size = 4096, fi_ModTime = 5, fi_IsDir = True\<rparr>, None)
   \<and> Head ex_store ex_fs (NewPath ''a'')
       = Return (\<lparr>Location = \<lparr>Raw = ''/store/a''\<rparr>, LastModified = 5, Size = 4096\<rparr>,
                 Some ErrorObjectIsDir)"
  by code_simp

subsection \<open>RenameIfNotExists\<close>

lemma RenameIfNotExists_destination_exists:
  assumes "os_Stat st (filepath_Join [Raw (BaseURI s), Raw to]) = (Some info, None)"
  shows "\<exists>e. RenameIfNotExists s st from to = Return (st, Some e)
           \<and> errors_Is (Some e) ErrorVersionAlreadyExists"
  using assms
  by (simp add: RenameIfNotExists_def RenameIfNotExists_rest_def Head_def Head_stat_def
      Let_def errors_Is_def)

lemma RenameIfNotExists_destination_missing:
  assumes "os_Stat st (filepath_Join [Raw (BaseURI s), Raw to]) = (None, Some e)"
    and "os_IsNotExist (Some e)"
  shows "RenameIfNotExists s st from to = Return (Rename s st from to)"
  using assms
  by (simp add: RenameIfNotExists_def RenameIfNotExists_rest_def Head_def Head_stat_def
      Let_def errors_Is_def errors_Join_def split: prod.splits)

text \<open>
  C1. The claim: when an object exists at the destination, \<open>RenameIfNotExists\<close> fails
  with \<open>ErrorVersionAlreadyExists\<close> and changes nothing; when none exists, it behaves
  exactly like \<open>Rename\<close>. The first half holds
  (\<open>RenameIfNotExists_destination_exists\<close>), and so does the second when
  \<^verbatim>\<open>stat\<close> reports the destination as missing
  (\<open>RenameIfNotExists_destination_missing\<close>). No object exists either at a
  destination below a regular file: in the example store \<open>a/x\<close> is a file, nothing
  exists at \<open>a/x/z\<close>, \<open>Rename\<close> to it returns an error and \<open>RenameIfNotExists\<close>
  panics.
\<close>

theorem RenameIfNotExists_panics_under_file:
  "os_Stat ex_fs ''/store/a/x/z'' = (None, Some (PathError ''stat'' ''/store/a/x/z'' ENOTDIR))
   \<and> RenameIfNotExists ex_store ex_fs (NewPath ''a/b/y'') (NewPath ''a/x/z'') = Panic
   \<and> Rename ex_store ex_fs (NewPath ''a/b/y'') (NewPath ''a/x/z'')
       = (ex_fs, Some (joinError [ErrorObjectDoesNotExist,
            LinkError ''rename'' ''/store/a/b/y'' ''/store/a/x/z'' ENOTDIR]))"
  by code_simp

subsection \<open>Put and Get\<close>

text \<open>
  C3, as stated: for every payload and every path, \<open>Put\<close> followed by \<open>Get\<close>
  succeeds and returns the payload. In the example store \<open>a\<close> is a directory:
  \<open>Put\<close> to \<open>a\<close> fails (the file cannot be opened for writing) and leaves the
  state as it was, and \<open>Get\<close> of \<open>a\<close> fails as well.
\<close>

theorem Put_directory_counterexample:
  "Put ex_store ex_fs (NewPath ''a'') [9] = (ex_fs, Some (PathError ''open'' ''/store/a'' EISDIR))
   \<and> Get ex_store ex_fs (NewPath ''a'') = ([], Some (PathError ''read'' ''/store/a'' EISDIR))"
  by code_simp

text \<open>
  C3, amended: for every payload and every path, whenever \<open>Put\<close> returns no error,
  \<open>Get\<close> of the same path on the resulting state succeeds and returns exactly the
  payload.
\<close>

theorem Put_then_Get:
  assumes "Put s st location bytes = (st', None)"
  shows "Get s st' location = (bytes, None)"
proof -
  let ?w = "filepath_Join [Raw (BaseURI s), Raw location]"
  obtain st1 err where m: "os_MkdirAll st (filepath_Dir ?w) = (st1, err)"
    by (cases "os_MkdirAll st (filepath_Dir ?w)")
  with assms have "os_WriteFile st1 ?w bytes = (st', None)"
    by (auto simp: Put_def Let_def split: if_splits)
  from os_WriteFile_ReadFile [OF this] show ?thesis
    by (simp add: Get_def)
qed

theorem Put_then_Get_witness:
  "Put ex_store ex_fs (NewPath ''a/c/z'') [7, 8]
     = (\<lparr>root = Dir 0 4096
          [(''store'', Dir 5 4096
             [(''a'', Dir 7 4096
                [(''x'', File [1, 2, 3] 5),
                 (''b'', Dir 5 4096 [(''y'', File [4] 5)]),
                 (''c'', Dir 7 4096 [(''z'', File [7, 8] 7)])])])],
         cwd = [], clock = 7, mkdir_size = 4096\<rparr>, None)
   \<and> Get ex_store
        \<lparr>root = Dir 0 4096
          [(''store'', Dir 5 4096
             [(''a'', Dir 7 4096
                [(''x'', File [1, 2, 3] 5),
                 (''b'', Dir 5 4096 [(''y'', File [4] 5)]),
                 (''c'', Dir 7 4096 [(''z'', File [7, 8] 7)])])])],
         cwd = [], clock = 7, mkdir_size = 4096\<rparr>
        (NewPath ''a/c/z'') = ([7, 8], None)"
proof -
  have h: "Put ex_store ex_fs (NewPath ''a/c/z'') [7, 8]
     = (\<lparr>root = Dir 0 4096
          [(''store'', Dir 5 4096
             [(''a'', Dir 7 4096
                [(''x'', File [1, 2, 3] 5),
                 (''b'', Dir 5 4096 [(''y'', File [4] 5)]),
                 (''c'', Dir 7 4096 [(''z'', File [7, 8] 7)])])])],
         cwd = [], clock = 7, mkdir_size = 4096\<rparr>, None)"
    by code_simp
  from Put_then_Get [OF h] h show ?thesis by simp
qed

subsection \<open>Two callers of RenameIfNotExists\<close>

text \<open>
  C2, as stated: of two concurrent calls of \<open>RenameIfNotExists\<close> to a destination
  that does not exist, exactly one succeeds and the other fails with
  \<open>ErrorVersionAlreadyExists\<close>. The check of the destination and the rename are two
  steps; when both callers check before either renames, both calls return no error, and
  the commit file holds the content of the second caller: the first caller was told it
  had won, and its commit is gone.
\<close>

theorem interleaved_both_succeed:
  "interleaved ex_store race_fs (NewPath ''sA'') (NewPath ''sB'') (NewPath ''commit'')
     = Return ((None, None),
         \<lparr>root = Dir 0 4096 [(''store'', Dir 7 4096 [(''commit'', File [2] 4)])],
           cwd = [], clock = 7, mkdir_size = 4096\<rparr>)"
  by code_simp

text \<open>
  C2, amended: when the two calls run one after the other, the first from a staged
  regular file, and the first succeeds, then the second fails with
  \<open>ErrorVersionAlreadyExists\<close> and changes nothing, and the content at the
  destination is the content the first caller staged.
\<close>

theorem RenameIfNotExists_sequential:
  assumes "Get s st stagingA = (a, None)"
    and "RenameIfNotExists s st stagingA p = Return (st1, None)"
  shows "RenameIfNotExists s st1 stagingB p
           = Return (st1, Some (wrapError
               (''error %w: Object at location '' @ Raw p @ '' already exists'')
               ErrorVersionAlreadyExists))
         \<and> Get s st1 p = (a, None)"
proof -
  let ?f = "filepath_Join [Raw (BaseURI s), Raw stagingA]"
  let ?t = "filepath_Join [Raw (BaseURI s), Raw p]"
  from assms(2) obtain meta err where h: "Head s st p = Return (meta, err)"
    by (auto simp: RenameIfNotExists_def split: outcome.splits)
  with assms(2) have isn: "errors_Is err ErrorObjectDoesNotExist"
    by (auto simp: RenameIfNotExists_def RenameIfNotExists_rest_def split: if_splits)
  from Head_not_exist_stat [OF h isn] have ns: "fst (os_Stat st ?t) = None" .
  from assms(2) h isn have "Rename s st stagingA p = (st1, None)"
    by (auto simp: RenameIfNotExists_def RenameIfNotExists_rest_def Let_def
        split: if_splits prod.splits)
  then have rn: "os_Rename st ?f ?t = (st1, None)"
    by (auto simp: Rename_def Path_Join_def Let_def errors_Join_def
        split: if_splits prod.splits)
  from assms(1) have rd: "os_ReadFile st ?f = (a, None)"
    by (simp add: Get_def)
  from os_Rename_file [OF rn rd ns] obtain m where
    g: "os_ReadFile st1 ?t = (a, None)" and
    s1: "os_Stat st1 ?t = (Some (stat_node (File a m)), None)" by auto
  from s1 have "RenameIfNotExists s st1 stagingB p
           = Return (st1, Some (wrapError
               (''error %w: Object at location '' @ Raw p @ '' already exists'')
               ErrorVersionAlreadyExists))"
    by (simp add: RenameIfNotExists_def RenameIfNotExists_rest_def Head_def Head_stat_def
        Let_def errors_Is_def)
  with g show ?thesis by (simp add: Get_def)
qed

theorem RenameIfNotExists_sequential_witness:
  "Get ex_store race_fs (NewPath ''sA'') = ([1], None)
   \<and> RenameIfNotExists ex_store race_fs (NewPath ''sA'') (NewPath ''commit'')
       = Return (race_fs1, None)
   \<and> RenameIfNotExists ex_store race_fs1 (NewPath ''sB'') (NewPath ''commit'')
       = Return (race_fs1, Some (wrapError
           ''error %w: Object at location commit already exists''
           ErrorVersionAlreadyExists))
   \<and> Get ex_store race_fs1 (NewPath ''commit'') = ([1], None)"
proof -
  have h1: "Get ex_store race_fs (NewPath ''sA'') = ([1], None)"
    by code_simp
  have h2: "RenameIfNotExists ex_store race_fs (NewPath ''sA'') (NewPath ''commit'')
       = Return (race_fs1, None)"
    by code_simp
  from RenameIfNotExists_sequential [OF h1 h2, of "NewPath ''sB''"] h1 h2
  show ?thesis by (simp add: NewPath_def)
qed

subsection \<open>List\<close>

text \<open>
  The listing theorems are about a store whose base is an absolute, normalised path
  other than the root, a prefix that is a normalised relative path, and a well-formed
  file system. The first argument of \<open>List\<close> bounds the depth of the recursion; the
  height of the listed directory is enough.
\<close>

lemma entries_below_matching:
  "entries_below qs (Dir m s es) = matching_entries [] qs es"
  by (simp add: matching_entries_def)

lemma listEntries_char:
  assumes bs: "list_all valid_name bs" "bs \<noteq> []"
    and qs: "list_all valid_name qs"
    and d: "d = abs_path (bs @ qs) \<or> d = abs_path (bs @ qs) @ ''/''"
  shows "(\<forall>e\<in>set xs. valid_name (fst e) \<and>
            (is_Dir (Some (snd e)) \<longrightarrow>
               listFilesInDirRecursively k st (abs_path bs @ ''/'')
                   (abs_path (bs @ qs @ [fst e])) []
                 = Some (Return (entries_below (qs @ [fst e]) (snd e), None)))) \<Longrightarrow>
     listEntries k st (abs_path bs @ ''/'') d pre
         (map (\<lambda>(c, n). \<lparr>de_Name = c, de_Info = stat_node n\<rparr>) xs) out
       = Some (Return (out @ concat (map (\<lambda>e. if pre = [] \<or> prefix pre (fst e)
                       then entry_of (qs @ [fst e]) (snd e) # entries_below (qs @ [fst e]) (snd e)
                       else []) xs), None))"
proof (induction xs arbitrary: out)
  case Nil
  then show ?case by simp
next
  case (Cons e xs)
  obtain c n where e: "e = (c, n)" by (cases e)
  from Cons.prems e have v: "valid_name c" by simp
  have rest: "\<And>out'. listEntries k st (abs_path bs @ ''/'') d pre
         (map (\<lambda>(c, n). \<lparr>de_Name = c, de_Info = stat_node n\<rparr>) xs) out'
       = Some (Return (out' @ concat (map (\<lambda>e. if pre = [] \<or> prefix pre (fst e)
                       then entry_of (qs @ [fst e]) (snd e) # entries_below (qs @ [fst e]) (snd e)
                       else []) xs), None))"
    using Cons.IH Cons.prems by simp
  have m: "objectMetaFromDirEntry \<lparr>de_Name = c, de_Info = stat_node n\<rparr> d (abs_path bs @ ''/'')
         = Return (entry_of (qs @ [c]) n, None)"
    by (rule meta_entry [OF bs qs v d])
  have j: "path_Join [d, c] = abs_path (bs @ qs @ [c])"
    using path_Join_child [of "bs @ qs" c d] bs qs v d by simp
  show ?case
  proof (cases "pre = [] \<or> prefix pre c")
    case False
    then show ?thesis
      by (simp add: e strings_HasPrefix_def rest)
  next
    case True
    show ?thesis
    proof (cases n)
      case (File b t)
      from m have m': "objectMetaFromDirEntry
          \<lparr>de_Name = c, de_Info = \<lparr>fi_Size = int (length b), fi_ModTime = t, fi_IsDir = False\<rparr>\<rparr>
          d (abs_path bs @ ''/'') = Return (entry_of (qs @ [c]) n, None)"
        by (simp add: File)
      from True show ?thesis
        by (auto simp: e File strings_HasPrefix_def m' [unfolded File] de_IsDir_def rest)
    next
      case (Dir t sz es')
      with Cons.prems e have
        "listFilesInDirRecursively k st (abs_path bs @ ''/'') (abs_path (bs @ qs @ [c])) []
           = Some (Return (entries_below (qs @ [c]) n, None))"
        by simp
      then have sub:
        "listFilesInDirRecursively k st (abs_path bs @ ''/'') (abs_path (bs @ qs @ [c])) []
           = Some (Return (entries_below (qs @ [c]) (Dir t sz es'), None))"
        by (simp only: Dir)
      from m have m': "objectMetaFromDirEntry
          \<lparr>de_Name = c, de_Info = \<lparr>fi_Size = sz, fi_ModTime = t, fi_IsDir = True\<rparr>\<rparr>
          d (abs_path bs @ ''/'') = Return (entry_of (qs @ [c]) (Dir t sz es'), None)"
        by (simp add: Dir)
      from True show ?thesis
        by (auto simp: e Dir strings_HasPrefix_def m' de_IsDir_def j rest sub
            simp del: entries_below.simps)
    qed
  qed
qed

lemma lookup_child:
  assumes "lookup r p = Some (Dir m s es)" "distinct (map fst es)" "e \<in> set es"
  shows "lookup r (p @ [fst e]) = Some (snd e)"
proof -
  from assms(2,3) have "map_of es (fst e) = Some (snd e)"
    by (cases e) simp
  with assms(1) show ?thesis
    by (simp add: lookup_append)
qed

lemma listFiles_char:
  assumes wf: "wf_node (root st)"
    and bs: "list_all valid_name bs" "bs \<noteq> []"
  shows "list_all valid_name qs \<Longrightarrow> lookup (root st) (bs @ qs) = Some (Dir m s es) \<Longrightarrow>
     height (Dir m s es) \<le> n \<Longrightarrow>
     d = abs_path (bs @ qs) \<or> d = abs_path (bs @ qs) @ ''/'' \<Longrightarrow>
     listFilesInDirRecursively n st (abs_path bs @ ''/'') d pre
       = Some (Return (matching_entries pre qs es, None))"
proof (induction n arbitrary: qs m s es d pre)
  case 0
  then show ?case by simp
next
  case (Suc k)
  from bs Suc.prems(1) have ps: "list_all valid_name (bs @ qs)" "bs @ qs \<noteq> []"
    by simp_all
  have rd: "os_ReadDir st d
         = (map (\<lambda>(c, n). \<lparr>de_Name = c, de_Info = stat_node n\<rparr>) (sort_key fst es), None)"
    by (rule os_ReadDir_abs [OF ps Suc.prems(2) Suc.prems(4)])
  from wf_lookup [OF wf Suc.prems(2)] have wfD: "wf_node (Dir m s es)" .
  have ent: "\<forall>e\<in>set (sort_key fst es). valid_name (fst e) \<and>
            (is_Dir (Some (snd e)) \<longrightarrow>
               listFilesInDirRecursively k st (abs_path bs @ ''/'')
                   (abs_path (bs @ qs @ [fst e])) []
                 = Some (Return (entries_below (qs @ [fst e]) (snd e), None)))"
  proof (intro ballI conjI impI)
    fix e assume "e \<in> set (sort_key fst es)"
    then have mem: "e \<in> set es" by simp
    with wfD show "valid_name (fst e)" by (auto simp: list_all_iff)
    assume "is_Dir (Some (snd e))"
    then obtain m' s' es' where ch: "snd e = Dir m' s' es'" by (auto simp: is_Dir_iff)
    from wfD have dist: "distinct (map fst es)" by simp
    from lookup_child [OF Suc.prems(2) dist mem] ch
    have lk: "lookup (root st) (bs @ (qs @ [fst e])) = Some (Dir m' s' es')" by simp
    from height_child [OF mem] Suc.prems(3) ch have h: "height (Dir m' s' es') \<le> k"
      by simp
    from wfD mem have "valid_name (fst e)" by (auto simp: list_all_iff)
    with Suc.prems(1) have q': "list_all valid_name (qs @ [fst e])" by simp
    from Suc.IH [OF q' lk h, of "abs_path (bs @ qs @ [fst e])" "[]"] ch
    show "listFilesInDirRecursively k st (abs_path bs @ ''/'')
                   (abs_path (bs @ qs @ [fst e])) []
                 = Some (Return (entries_below (qs @ [fst e]) (snd e), None))"
      by (simp add: matching_entries_def)
  qed
  from listEntries_char [OF bs Suc.prems(1) Suc.prems(4) ent, of pre "[]"] rd
  show ?case
    by (simp add: matching_entries_def)
qed

lemma rel_dir_join: "ds \<noteq> [] \<Longrightarrow> rel_dir ds = join_slash ds @ ''/''"
  by (induction ds rule: join_slash.induct) (auto simp: rel_dir_def)

lemma rel_dir_Nil_iff: "list_all valid_name ds \<Longrightarrow> rel_dir ds = [] \<longleftrightarrow> ds = []"
  by (cases ds) (auto simp: rel_dir_def valid_name_def)

lemma last_valid: "valid_name c \<Longrightarrow> last c \<noteq> CHR ''/''"
  unfolding valid_name_def by (metis last_in_set)

lemma last_join_valid:
  assumes "list_all valid_name ps" "ps \<noteq> []"
  shows "join_slash ps \<noteq> []" "last (join_slash ps) \<noteq> CHR ''/''"
proof -
  from assms have v: "valid_name (last ps)" by (simp add: list_all_iff)
  then have ne: "last ps \<noteq> []" by (simp add: valid_name_def)
  from join_slash_not_Nil [OF assms(2) ne] show "join_slash ps \<noteq> []" .
  from last_join_slash [OF assms(2) ne] last_valid [OF v]
  show "last (join_slash ps) \<noteq> CHR ''/''" by simp
qed

lemma last_abs_path:
  assumes "list_all valid_name ps" "ps \<noteq> []"
  shows "last (abs_path ps) \<noteq> CHR ''/''"
  using last_join_valid [OF assms] by (simp add: abs_path_def)

lemma hd_join_valid:
  assumes "list_all valid_name ps" "ps \<noteq> []"
  shows "hd (join_slash ps) \<noteq> CHR ''/''"
proof -
  from assms obtain p ps' where ps: "ps = p # ps'" by (cases ps) auto
  with assms have "p \<noteq> []" "hd p \<noteq> CHR ''/''"
    by (auto simp: valid_name_def neq_Nil_conv)
  then show ?thesis
    by (cases ps') (auto simp: ps)
qed

lemma dir_entry_meta:
  assumes "list_all valid_name ds" "ds \<noteq> []"
  shows "objectMetaFromFileInfo info (rel_dir ds) True [] (abs_path bs @ ''/'')
         = Return (\<lparr>Location = NewPath (rel_dir ds), LastModified = fi_ModTime info, Size = 0\<rparr>,
                   None)"
proof -
  have j: "path_Join [[], rel_dir ds] = join_slash ds"
    by (rule Join_empty_dir [OF assms])
  from last_join_valid [OF assms] hd_join_valid [OF assms]
  have l: "join_slash ds \<noteq> []" "last (join_slash ds) \<noteq> CHR ''/''"
    "hd (join_slash ds) \<noteq> CHR ''/''" by simp_all
  then have "\<not> prefix (abs_path bs @ ''/'') (join_slash ds)"
    by (cases "join_slash ds") (auto simp: abs_path_def)
  then have t: "strings_TrimPrefix (join_slash ds) (abs_path bs @ ''/'') = join_slash ds"
    by (simp add: strings_TrimPrefix_def strings_HasPrefix_def)
  show ?thesis
    using l assms(2)
    by (simp add: objectMetaFromFileInfo_def j t Let_def zero_ObjectMeta_def
        os_IsPathSeparator_def filepath_Separator_def rel_dir_join [OF assms(2), symmetric])
qed

lemma List_char:
  assumes wf: "wf_node (root st)"
    and base: "Raw (BaseURI s) = abs_path bs" "list_all valid_name bs" "bs \<noteq> []"
    and pre: "Raw pre = rel_dir ds @ fp" "list_all valid_name ds" "CHR ''/'' \<notin> set fp"
    and dir: "lookup (root st) (bs @ ds) = Some (Dir m sz es)"
    and fuel: "height (Dir m sz es) \<le> n"
  shows "List n s st pre = Some (Return (List_spec fp ds (Dir m sz es), None))"
proof -
  let ?B = "abs_path bs @ ''/''"
  let ?full = "abs_path (bs @ ds)"
  let ?d = "if fp = [] then ?full @ ''/'' else ?full"
  have sp: "filepath_Split (Raw pre) = (rel_dir ds, fp)"
    unfolding pre(1) by (rule Split_prefix [OF pre(3)])
  have jn: "filepath_Join [abs_path bs, rel_dir ds] = ?full"
    by (rule Join_base_dir [OF base(2,3) pre(2)])
  from base pre have ps: "list_all valid_name (bs @ ds)" "bs @ ds \<noteq> []" by simp_all
  have lf: "?full \<noteq> []" "last ?full \<noteq> CHR ''/''"
    using last_abs_path [OF ps] by (simp_all add: abs_path_def)
  have lb: "abs_path bs \<noteq> []" "last (abs_path bs) \<noteq> CHR ''/''"
    using last_abs_path [OF base(2,3)] by (simp_all add: abs_path_def)
  have d: "?d = ?full \<or> ?d = ?full @ ''/''" by simp
  have ls: "listFilesInDirRecursively n st ?B ?d fp
       = Some (Return (matching_entries fp ds es, None))"
    by (rule listFiles_char [OF wf base(2,3) pre(2) dir fuel d])
  have stt: "os_Stat st ?full = (Some (stat_node (Dir m sz es)), None)"
    by (rule os_Stat_abs [OF ps dir])
  show ?thesis
  proof (cases "ds \<noteq> [] \<and> fp = []")
    case True
    then have ne: "rel_dir ds \<noteq> []" using pre(2) by (simp add: rel_dir_Nil_iff)
    from True have dm: "objectMetaFromFileInfo (stat_node (Dir m sz es)) (rel_dir ds) True [] ?B
         = Return (\<lparr>Location = NewPath (rel_dir ds), LastModified = m, Size = 0\<rparr>, None)"
      using dir_entry_meta [OF pre(2), of "stat_node (Dir m sz es)" bs] by simp
    from True ls show ?thesis
      by (simp add: List_def sp base(1) jn Let_def lf lb os_IsPathSeparator_def
          filepath_Separator_def ne stt dm List_spec_def del: stat_node.simps)
  next
    case False
    then have ne: "rel_dir ds = [] \<or> fp \<noteq> []" using pre(2) by (auto simp: rel_dir_Nil_iff)
    from False ls ne show ?thesis
      by (auto simp: List_def sp base(1) jn Let_def lf lb os_IsPathSeparator_def
          filepath_Separator_def List_spec_def)
  qed
qed

lemma entry_in_matching:
  assumes "e \<in> set es" "fp = [] \<or> prefix fp (fst e)"
  shows "entry_of (qs @ [fst e]) (snd e) \<in> set (matching_entries fp qs es)"
    and "set (entries_below (qs @ [fst e]) (snd e)) \<subseteq> set (matching_entries fp qs es)"
  using assms by (auto simp: matching_entries_def)

lemma entry_in_below:
  assumes "e \<in> set es"
  shows "entry_of (qs @ [fst e]) (snd e) \<in> set (entries_below qs (Dir m s es))"
  using assms by auto

lemma lookup_child_mem:
  assumes "lookup r p = Some (Dir m s es)" "lookup r (p @ [c]) = Some n"
  shows "(c, n) \<in> set es"
  using assms by (auto simp: lookup_append split: option.splits dest: map_of_SomeD)

lemma List_example_entries:
  assumes wf: "wf_node (root st)"
    and base: "Raw (BaseURI s) = abs_path bs" "list_all valid_name bs" "bs \<noteq> []"
    and a: "lookup (root st) (bs @ [''a'']) = Some D" "height D \<le> n"
    and x: "lookup (root st) (bs @ [''a'', ''x'']) = Some (File cx mx)"
    and y: "lookup (root st) (bs @ [''a'', ''b'', ''y'']) = Some (File cy my)"
  shows "\<exists>files mb. List n s st (NewPath ''a/'') = Some (Return (files, None))
      \<and> \<lparr>Location = NewPath ''a/x'', LastModified = mx, Size = int (length cx)\<rparr> \<in> set files
      \<and> \<lparr>Location = NewPath ''a/b/'', LastModified = mb, Size = 0\<rparr> \<in> set files
      \<and> \<lparr>Location = NewPath ''a/b/y'', LastModified = my, Size = int (length cy)\<rparr> \<in> set files"
proof -
  from lookup_prefix_dir [of "root st" "bs @ [''a'']" "[''x'']"] x a(1)
  obtain m sz es where D: "D = Dir m sz es" by (auto simp: is_Dir_iff)
  from lookup_prefix_dir [of "root st" "bs @ [''a'', ''b'']" "[''y'']"] y
  obtain mb sb eb where b: "lookup (root st) (bs @ [''a'', ''b'']) = Some (Dir mb sb eb)"
    by (auto simp: is_Dir_iff)
  have ex: "(''x'', File cx mx) \<in> set es"
    using lookup_child_mem [of "root st" "bs @ [''a'']" m sz es "''x''"] a(1) x D by simp
  have eb: "(''b'', Dir mb sb eb) \<in> set es"
    using lookup_child_mem [of "root st" "bs @ [''a'']" m sz es "''b''"] a(1) b D by simp
  have ey: "(''y'', File cy my) \<in> set eb"
    using lookup_child_mem [of "root st" "bs @ [''a'', ''b'']" mb sb eb "''y''"] b y by simp
  let ?files = "List_spec [] [''a''] (Dir m sz es)"
  have pre: "Raw (NewPath ''a/'') = rel_dir [''a''] @ []"
    by (simp add: NewPath_def rel_dir_def)
  have L: "List n s st (NewPath ''a/'') = Some (Return (?files, None))"
    by (rule List_char [OF wf base pre _ _ _ _])
      (use a D in \<open>simp_all add: valid_name_def\<close>)
  have 1: "entry_of ([''a''] @ [''x'']) (File cx mx) \<in> set ?files"
    using entry_in_matching(1) [OF ex, of "[]" "[''a'']"] by (simp add: List_spec_def)
  have 2: "entry_of ([''a''] @ [''b'']) (Dir mb sb eb) \<in> set ?files"
    using entry_in_matching(1) [OF eb, of "[]" "[''a'']"] by (simp add: List_spec_def)
  have "entry_of ([''a'', ''b''] @ [''y'']) (File cy my)
          \<in> set (entries_below ([''a''] @ [''b'']) (Dir mb sb eb))"
    using entry_in_below [OF ey, of "[''a'', ''b'']" mb sb] by simp
  with entry_in_matching(2) [OF eb, of "[]" "[''a'']"]
  have 3: "entry_of ([''a'', ''b''] @ [''y'']) (File cy my) \<in> set ?files"
    by (auto simp: List_spec_def)
  from L 1 2 3 show ?thesis
    by (auto simp: entry_of_def)
qed

lemma List_missing_directory:
  assumes "Raw (BaseURI s) \<noteq> []" "0 < n"
    and "os_Stat st (filepath_Join [Raw (BaseURI s), fst (filepath_Split (Raw pre))])
           = (None, Some e)"
    and "os_IsNotExist (Some e)"
  shows "List n s st pre = Some (Return ([], None))"
proof -
  obtain dir fp where sp: "filepath_Split (Raw pre) = (dir, fp)"
    by (cases "filepath_Split (Raw pre)")
  let ?J = "filepath_Join [Raw (BaseURI s), dir]"
  let ?d = "if fp = [] \<and> \<not> os_IsPathSeparator (last ?J) then ?J @ [filepath_Separator] else ?J"
  have J: "?J \<noteq> []" by (rule Join_not_Nil [OF assms(1)])
  from assms(3) sp have stt: "os_Stat st ?J = (None, Some e)" by simp
  have "?d = ?J \<or> ?d = ?J @ ''/''" by (simp add: filepath_Separator_def)
  from os_ReadDir_not_exist [OF stt assms(4) J this]
  obtain e' where rd: "os_ReadDir st ?d = ([], Some e')" "os_IsNotExist (Some e')" by auto
  from assms(2) obtain k where n: "n = Suc k" by (cases n) auto
  have ls: "listFilesInDirRecursively n st B ?d fp = Some (Return ([], None))" for B
    using rd by (simp add: n)
  show ?thesis
    using J assms(1) assms(4) stt
    by (simp add: List_def sp Let_def ls)
qed

text \<open>
  C9. \<open>List\<close> filters by the name prefix at the first level only: it returns the
  listing \<open>List_spec\<close>, in which an entry of the resolved directory appears iff its
  name starts with the name prefix (the empty prefix matches every name), and every
  matching entry is followed by everything beneath it, unfiltered. Listing the prefix
  \<open>ab\<close> over \<open>abc.txt\<close>, \<open>abd.txt\<close> and \<open>xyz.txt\<close> returns the first two
  (the witness).
\<close>

theorem List_prefix_filter_top_level:
  assumes "wf_node (root st)"
    and "Raw (BaseURI s) = abs_path bs" "list_all valid_name bs" "bs \<noteq> []"
    and "Raw pre = rel_dir ds @ fp" "list_all valid_name ds" "CHR ''/'' \<notin> set fp"
    and "lookup (root st) (bs @ ds) = Some (Dir m sz es)"
    and "height (Dir m sz es) \<le> n"
  shows "List n s st pre = Some (Return (List_spec fp ds (Dir m sz es), None))"
  by (rule List_char [OF assms])

theorem List_prefix_filter_witness:
  "wf_node (root prefix_fs)
   \<and> Raw (BaseURI ex_store) = abs_path [''store'']
   \<and> list_all valid_name [''store'']
   \<and> Raw (NewPath ''ab'') = rel_dir [] @ ''ab''
   \<and> CHR ''/'' \<notin> set ''ab''
   \<and> lookup (root prefix_fs) ([''store''] @ [])
       = Some (Dir 5 4096
           [(''xyz.txt'', File [3] 4), (''abd.txt'', File [2, 2] 3), (''abc.txt'', File [1] 2)])
   \<and> height (Dir 5 4096
           [(''xyz.txt'', File [3] 4), (''abd.txt'', File [2, 2] 3), (''abc.txt'', File [1] 2)])
       \<le> 1
   \<and> List 1 ex_store prefix_fs (NewPath ''ab'')
       = Some (Return
           ([\<lparr>Location = NewPath ''abc.txt'', LastModified = 2, Size = 1\<rparr>,
             \<lparr>Location = NewPath ''abd.txt'', LastModified = 3, Size = 2\<rparr>], None))"
proof -
  let ?es = "[(''xyz.txt'', File [3] 4), (''abd.txt'', File [2, 2] 3), (''abc.txt'', File [1] 2)]"
  have h1: "wf_node (root prefix_fs)" by code_simp
  have h2: "Raw (BaseURI ex_store) = abs_path [''store'']" by code_simp
  have h3: "list_all valid_name [''store'']" by code_simp
  have h4: "[''store''] \<noteq> []" by simp
  have h5: "Raw (NewPath ''ab'') = rel_dir [] @ ''ab''" by code_simp
  have h6: "list_all valid_name []" by simp
  have h7: "CHR ''/'' \<notin> set ''ab''" by simp
  have h8: "lookup (root prefix_fs) ([''store''] @ []) = Some (Dir 5 4096 ?es)" by code_simp
  have h9: "height (Dir 5 4096 ?es) \<le> 1" by code_simp
  have sp: "List_spec ''ab'' [] (Dir 5 4096 ?es)
       = [\<lparr>Location = NewPath ''abc.txt'', LastModified = 2, Size = 1\<rparr>,
          \<lparr>Location = NewPath ''abd.txt'', LastModified = 3, Size = 2\<rparr>]"
    by code_simp
  from List_prefix_filter_top_level [OF h1 h2 h3 h4 h5 h6 h7 h8 h9] h1 h2 h3 h5 h7 h8 h9 sp
  show ?thesis by simp
qed

text \<open>
  C8. Whenever the prefix has a directory part and no name prefix, and names a directory
  that exists, \<open>List\<close> returns everything beneath that directory followed by an
  entry for the directory itself: its path with the separator at the end, the size 0
  and the modification time of the directory.
\<close>

theorem List_adds_directory_itself:
  assumes "wf_node (root st)"
    and "Raw (BaseURI s) = abs_path bs" "list_all valid_name bs" "bs \<noteq> []"
    and "Raw pre = rel_dir ds" "list_all valid_name ds" "ds \<noteq> []"
    and "lookup (root st) (bs @ ds) = Some (Dir m sz es)"
    and "height (Dir m sz es) \<le> n"
  shows "List n s st pre
         = Some (Return
             (entries_below ds (Dir m sz es) @
              [\<lparr>Location = NewPath (rel_dir ds), LastModified = m, Size = 0\<rparr>], None))"
proof -
  have pre: "Raw pre = rel_dir ds @ []" using assms(5) by simp
  have "List n s st pre = Some (Return (List_spec [] ds (Dir m sz es), None))"
    by (rule List_char [OF assms(1-4) pre assms(6) _ assms(8,9)]) simp
  with assms(7) show ?thesis
    by (simp add: List_spec_def matching_entries_def)
qed

theorem List_adds_directory_witness:
  "wf_node (root ex_fs)
   \<and> Raw (BaseURI ex_store) = abs_path [''store'']
   \<and> list_all valid_name [''store'']
   \<and> Raw (NewPath ''a/'') = rel_dir [''a'']
   \<and> list_all valid_name [''a'']
   \<and> lookup (root ex_fs) ([''store''] @ [''a''])
       = Some (Dir 5 4096 [(''x'', File [1, 2, 3] 5), (''b'', Dir 5 4096 [(''y'', File [4] 5)])])
   \<and> height (Dir 5 4096 [(''x'', File [1, 2, 3] 5), (''b'', Dir 5 4096 [(''y'', File [4] 5)])])
       \<le> 2
   \<and> List 2 ex_store ex_fs (NewPath ''a/'')
       = Some (Return
           ([\<lparr>Location = NewPath ''a/b/'', LastModified = 5, Size = 0\<rparr>,
             \<lparr>Location = NewPath ''a/b/y'', LastModified = 5, Size = 1\<rparr>,
             \<lparr>Location = NewPath ''a/x'', LastModified = 5, Size = 3\<rparr>,
             \<lparr>Location = NewPath ''a/'', LastModified = 5, Size = 0\<rparr>], None))"
proof -
  let ?es = "[(''x'', File [1, 2, 3] 5), (''b'', Dir 5 4096 [(''y'', File [4] 5)])]"
  have h1: "wf_node (root ex_fs)" by code_simp
  have h2: "Raw (BaseURI ex_store) = abs_path [''store'']" by code_simp
  have h3: "list_all valid_name [''store'']" by code_simp
  have h4: "[''store''] \<noteq> []" by simp
  have h5: "Raw (NewPath ''a/'') = rel_dir [''a'']" by code_simp
  have h6: "list_all valid_name [''a'']" by code_simp
  have h7: "[''a''] \<noteq> []" by simp
  have h8: "lookup (root ex_fs) ([''store''] @ [''a'']) = Some (Dir 5 4096 ?es)" by code_simp
  have h9: "height (Dir 5 4096 ?es) \<le> 2" by code_simp
  have sp: "entries_below [''a''] (Dir 5 4096 ?es)
       = [\<lparr>Location = NewPath ''a/b/'', LastModified = 5, Size = 0\<rparr>,
          \<lparr>Location = NewPath ''a/b/y'', LastModified = 5, Size = 1\<rparr>,
          \<lparr>Location = NewPath ''a/x'', LastModified = 5, Size = 3\<rparr>]"
    by code_simp
  have rd: "rel_dir [''a''] = ''a/''" by code_simp
  from List_adds_directory_itself [OF h1 h2 h3 h4 h5 h6 h7 h8 h9] h1 h2 h3 h5 h6 h8 h9 sp rd
  show ?thesis by simp
qed

text \<open>
  C7, as stated: listing a prefix whose directory does not exist returns an empty result
  and no error. In the example store \<open>a/x\<close> is a regular file, so no directory
  \<open>a/x/q\<close> exists; \<^verbatim>\<open>os.ReadDir\<close> fails with \<open>ENOTDIR\<close>, which is not a
  not-exist error, and \<open>List\<close> returns it joined to \<open>ErrorListObjects\<close>.
\<close>

theorem List_missing_prefix_counterexample:
  "lookup (root ex_fs) [''store'', ''a'', ''x'', ''q''] = None
   \<and> List 5 ex_store ex_fs (NewPath ''a/x/q/'')
       = Some (Return ([], Some (joinError
           [ErrorListObjects, PathError ''open'' ''/store/a/x/q/'' ENOTDIR])))"
  by code_simp

text \<open>
  C7, amended: when the files \<open>a/x\<close> and \<open>a/b/y\<close> exist, \<open>List\<close> of the
  prefix \<open>a/\<close> returns, among its results, entries for \<open>a/x\<close>, for \<open>a/b/\<close>
  (a directory entry: separator at the end, size 0) and for \<open>a/b/y\<close>; and \<open>List\<close>
  of any prefix whose directory \<^verbatim>\<open>os.Stat\<close> reports as not existing (as \<open>z/\<close>
  in the example store) returns the empty result and no error. \<open>List_example_result\<close>
  is the whole result in the example store.
\<close>

theorem List_directory_convention:
  assumes wf: "wf_node (root st)"
    and base: "Raw (BaseURI s) = abs_path bs" "list_all valid_name bs" "bs \<noteq> []"
    and a: "lookup (root st) (bs @ [''a'']) = Some D" "height D \<le> n"
    and x: "lookup (root st) (bs @ [''a'', ''x'']) = Some (File cx mx)"
    and y: "lookup (root st) (bs @ [''a'', ''b'', ''y'']) = Some (File cy my)"
  shows "(\<exists>files mb. List n s st (NewPath ''a/'') = Some (Return (files, None))
      \<and> \<lparr>Location = NewPath ''a/x'', LastModified = mx, Size = int (length cx)\<rparr> \<in> set files
      \<and> \<lparr>Location = NewPath ''a/b/'', LastModified = mb, Size = 0\<rparr> \<in> set files
      \<and> \<lparr>Location = NewPath ''a/b/y'', LastModified = my, Size = int (length cy)\<rparr> \<in> set files)
    \<and> (\<forall>pre e.
          os_Stat st (filepath_Join [Raw (BaseURI s), fst (filepath_Split (Raw pre))])
            = (None, Some e) \<longrightarrow>
          os_IsNotExist (Some e) \<longrightarrow>
          List n s st pre = Some (Return ([], None)))"
proof
  show "\<exists>files mb. List n s st (NewPath ''a/'') = Some (Return (files, None))
      \<and> \<lparr>Location = NewPath ''a/x'', LastModified = mx, Size = int (length cx)\<rparr> \<in> set files
      \<and> \<lparr>Location = NewPath ''a/b/'', LastModified = mb, Size = 0\<rparr> \<in> set files
      \<and> \<lparr>Location = NewPath ''a/b/y'', LastModified = my, Size = int (length cy)\<rparr> \<in> set files"
    by (rule List_example_entries [OF wf base a x y])
next
  from lookup_prefix_dir [of "root st" "bs @ [''a'']" "[''x'']"] x a(1)
  obtain m sz es where "D = Dir m sz es" by (auto simp: is_Dir_iff)
  with a(2) have n: "0 < n" by simp
  have b: "Raw (BaseURI s) \<noteq> []" by (simp add: base(1) abs_path_def)
  show "\<forall>pre e.
          os_Stat st (filepath_Join [Raw (BaseURI s), fst (filepath_Split (Raw pre))])
            = (None, Some e) \<longrightarrow>
          os_IsNotExist (Some e) \<longrightarrow>
          List n s st pre = Some (Return ([], None))"
    using List_missing_directory [OF b n] by blast
qed

theorem List_directory_convention_witness:
  "wf_node (root ex_fs)
   \<and> Raw (BaseURI ex_store) = abs_path [''store'']
   \<and> list_all valid_name [''store'']
   \<and> lookup (root ex_fs) ([''store''] @ [''a''])
       = Some (Dir 5 4096 [(''x'', File [1, 2, 3] 5), (''b'', Dir 5 4096 [(''y'', File [4] 5)])])
   \<and> height (Dir 5 4096 [(''x'', File [1, 2, 3] 5), (''b'', Dir 5 4096 [(''y'', File [4] 5)])])
       \<le> 2
   \<and> lookup (root ex_fs) ([''store''] @ [''a'', ''x'']) = Some (File [1, 2, 3] 5)
   \<and> lookup (root ex_fs) ([''store''] @ [''a'', ''b'', ''y'']) = Some (File [4] 5)
   \<and> (\<exists>files mb. List 2 ex_store ex_fs (NewPath ''a/'') = Some (Return (files, None))
      \<and> \<lparr>Location = NewPath ''a/x'', LastModified = 5, Size = 3\<rparr> \<in> set files
      \<and> \<lparr>Location = NewPath ''a/b/'', LastModified = mb, Size = 0\<rparr> \<in> set files
      \<and> \<lparr>Location = NewPath ''a/b/y'', LastModified = 5, Size = 1\<rparr> \<in> set files)
   \<and> os_Stat ex_fs (filepath_Join [Raw (BaseURI ex_store), fst (filepath_Split (Raw (NewPath ''z/'')))])
       = (None, Some (PathError ''stat'' ''/store/z'' ENOENT))
   \<and> os_IsNotExist (Some (PathError ''stat'' ''/store/z'' ENOENT))
   \<and> List 2 ex_store ex_fs (NewPath ''z/'') = Some (Return ([], None))"
proof -
  let ?es = "[(''x'', File [1, 2, 3] 5), (''b'', Dir 5 4096 [(''y'', File [4] 5)])]"
  have h1: "wf_node (root ex_fs)" by code_simp
  have h2: "Raw (BaseURI ex_store) = abs_path [''store'']" by code_simp
  have h3: "list_all valid_name [''store'']" by code_simp
  have h4: "[''store''] \<noteq> []" by simp
  have h5: "lookup (root ex_fs) ([''store''] @ [''a'']) = Some (Dir 5 4096 ?es)" by code_simp
  have h6: "height (Dir 5 4096 ?es) \<le> 2" by code_simp
  have h7: "lookup (root ex_fs) ([''store''] @ [''a'', ''x'']) = Some (File [1, 2, 3] 5)"
    by code_simp
  have h8: "lookup (root ex_fs) ([''store''] @ [''a'', ''b'', ''y'']) = Some (File [4] 5)"
    by code_simp
  have h9: "os_Stat ex_fs
      (filepath_Join [Raw (BaseURI ex_store), fst (filepath_Split (Raw (NewPath ''z/'')))])
       = (None, Some (PathError ''stat'' ''/store/z'' ENOENT))"
    by code_simp
  have h10: "os_IsNotExist (Some (PathError ''stat'' ''/store/z'' ENOENT))" by simp
  note t = List_directory_convention [OF h1 h2 h3 h4 h5 h6 h7 h8]
  from t have p1: "\<exists>files mb. List 2 ex_store ex_fs (NewPath ''a/'') = Some (Return (files, None))
      \<and> \<lparr>Location = NewPath ''a/x'', LastModified = 5, Size = 3\<rparr> \<in> set files
      \<and> \<lparr>Location = NewPath ''a/b/'', LastModified = mb, Size = 0\<rparr> \<in> set files
      \<and> \<lparr>Location = NewPath ''a/b/y'', LastModified = 5, Size = 1\<rparr> \<in> set files"
    by simp
  from t h9 h10 have p2: "List 2 ex_store ex_fs (NewPath ''z/'') = Some (Return ([], None))"
    by blast
  from h1 h2 h3 h5 h6 h7 h8 h9 h10 p1 p2 show ?thesis by blast
qed

lemma List_example_result:
  "List 2 ex_store ex_fs (NewPath ''a/'')
     = Some (Return
         ([\<lparr>Location = NewPath ''a/b/'', LastModified = 5, Size = 0\<rparr>,
           \<lparr>Location = NewPath ''a/b/y'', LastModified = 5, Size = 1\<rparr>,
           \<lparr>Location = NewPath ''a/x'', LastModified = 5, Size = 3\<rparr>,
           \<lparr>Location = NewPath ''a/'', LastModified = 5, Size = 0\<rparr>], None))"
  by code_simp

subsection \<open>The locations List and Head return\<close>

lemma Head_location:
  assumes "Head s st location = Return (meta, None)"
  shows "Raw (Location meta) = filepath_Join [Raw (BaseURI s), Raw location]"
  using assms
  by (auto simp: Head_def Head_stat_def zero_ObjectMeta_def Let_def errors_Join_def
      List.map_filter_simps split: prod.splits if_splits option.splits)

lemma entry_of_relative:
  assumes "list_all valid_name qs" "qs \<noteq> []"
  shows "hd (Raw (Location (entry_of qs n))) \<noteq> CHR ''/''"
proof -
  from last_join_valid(1) [OF assms] hd_join_valid [OF assms]
  show ?thesis
    by (cases n) (simp_all add: entry_of_def NewPath_def)
qed

lemma entries_below_relative:
  "wf_node n \<Longrightarrow> list_all valid_name qs \<Longrightarrow> meta \<in> set (entries_below qs n) \<Longrightarrow>
   hd (Raw (Location meta)) \<noteq> CHR ''/''"
proof (induction qs n arbitrary: meta rule: entries_below.induct)
  case (1 qs b m)
  then show ?case by simp
next
  case (2 qs m s es)
  from 2(4) obtain e where e: "e \<in> set es"
    and m: "meta = entry_of (qs @ [fst e]) (snd e) \<or> meta \<in> set (entries_below (qs @ [fst e]) (snd e))"
    by auto
  from 2(2) e have v: "valid_name (fst e)" "wf_node (snd e)"
    by (auto simp: list_all_iff)
  with 2(3) have q: "list_all valid_name (qs @ [fst e])" by simp
  from m show ?case
  proof
    assume "meta = entry_of (qs @ [fst e]) (snd e)"
    with entry_of_relative [OF q] show ?thesis by simp
  next
    assume "meta \<in> set (entries_below (qs @ [fst e]) (snd e))"
    from 2(1) [OF _ v(2) q this] e show ?thesis by simp
  qed
qed

lemma List_locations_relative:
  assumes "wf_node (root st)"
    and "Raw (BaseURI s) = abs_path bs" "list_all valid_name bs" "bs \<noteq> []"
    and "Raw pre = rel_dir ds @ fp" "list_all valid_name ds" "CHR ''/'' \<notin> set fp"
    and "lookup (root st) (bs @ ds) = Some (Dir m sz es)"
    and "height (Dir m sz es) \<le> n"
  shows "\<exists>files. List n s st pre = Some (Return (files, None))
           \<and> (\<forall>meta\<in>set files. \<not> strings_HasPrefix (Raw (Location meta)) (Raw (BaseURI s)))"
proof -
  let ?files = "List_spec fp ds (Dir m sz es)"
  have L: "List n s st pre = Some (Return (?files, None))"
    by (rule List_char [OF assms])
  from wf_lookup [OF assms(1,8)] have wfD: "wf_node (Dir m sz es)" .
  have rel: "hd (Raw (Location meta)) \<noteq> CHR ''/''" if "meta \<in> set ?files" for meta
  proof -
    from that consider
      (top) e where "e \<in> set es" "meta = entry_of (ds @ [fst e]) (snd e)"
    | (deep) e where "e \<in> set es" "meta \<in> set (entries_below (ds @ [fst e]) (snd e))"
    | (self) "ds \<noteq> []" "meta = \<lparr>Location = NewPath (rel_dir ds), LastModified = m, Size = 0\<rparr>"
      by (auto simp: List_spec_def matching_entries_def split: if_splits)
    then show ?thesis
    proof cases
      case top
      with wfD assms(6) have "list_all valid_name (ds @ [fst e])" by (auto simp: list_all_iff)
      from entry_of_relative [OF this] top show ?thesis by simp
    next
      case deep
      with wfD assms(6) have "list_all valid_name (ds @ [fst e])" "wf_node (snd e)"
        by (auto simp: list_all_iff)
      from entries_below_relative [OF this(2,1) deep(2)] show ?thesis .
    next
      case self
      with hd_join_valid [OF assms(6)] last_join_valid(1) [OF assms(6)] show ?thesis
        by (simp add: NewPath_def rel_dir_join)
    qed
  qed
  have "\<not> strings_HasPrefix (Raw (Location meta)) (Raw (BaseURI s))"
    if "meta \<in> set ?files" for meta
    using rel [OF that]
    by (cases "Raw (Location meta)") (auto simp: strings_HasPrefix_def assms(2) abs_path_def)
  with L show ?thesis by blast
qed

text \<open>
  C4. The claim: every path \<open>List\<close> or \<open>Head\<close> returns is relative to the base of
  the store. The results of \<open>List\<close> are (\<open>List_locations_relative\<close>).
  \<open>Head\<close> returns the path it resolved, which is the base joined with the location
  (\<open>Head_location\<close>): in the example store the location of \<open>a/x\<close> comes back
  as \<open>/store/a/x\<close>, an absolute path that starts with the base.
\<close>

theorem Head_location_absolute:
  "Head ex_store ex_fs (NewPath ''a/x'')
     = Return (\<lparr>Location = \<lparr>Raw = ''/store/a/x''\<rparr>, LastModified = 5, Size = 3\<rparr>, None)
   \<and> strings_HasPrefix ''/store/a/x'' (Raw (BaseURI ex_store))"
  by code_simp

end
